theory Spec2Isabelle
  imports Main
begin

section \<open>The conversational session store of Minerva (app/services/memory\_service.py)\<close>

text \<open>
  The theory embeds \<^verbatim>\<open>ConversationalMemoryService\<close>: a cache-aside session store with a
  Redis hash per session in front of the \<^verbatim>\<open>user_sessions\<close> table.

  Conventions of the embedding.
  \<^item> Instants (\<^verbatim>\<open>datetime\<close>) are integers, counted in seconds; \<^verbatim>\<open>timedelta(hours=24)\<close> and
    the Redis TTL \<^verbatim>\<open>86400\<close> are both \<open>86400\<close>. One call of the service runs at one instant
    \<open>now\<close>, which stands for every \<^verbatim>\<open>datetime.utcnow()\<close> read during the call.
  \<^item> JSON payloads (\<^verbatim>\<open>Dict\<close>) are maps from keys to JSON scalars; \<^verbatim>\<open>json.dumps\<close> followed
    by \<^verbatim>\<open>json.loads\<close> and \<^verbatim>\<open>isoformat\<close> followed by \<^verbatim>\<open>fromisoformat\<close> are the identity.
    Numbers are integers (no floats); text is a list of characters, and only the letters
    \<^verbatim>\<open>A\<close> to \<^verbatim>\<open>Z\<close> have a lower case.
  \<^item> The \<^verbatim>\<open>db\<close> handle is always supplied, as every caller under \<^verbatim>\<open>app/api\<close> does, and the
    table is reachable. The table is seen through the calls the service makes
    (\<^verbatim>\<open>add\<close>, \<^verbatim>\<open>query\<close>, \<^verbatim>\<open>commit\<close>, \<^verbatim>\<open>refresh\<close>), with the behaviour of the ORM for the
    columns of \<^verbatim>\<open>UserSession\<close> as app/models/user.py declares them (see the section on the
    table). The column \<^verbatim>\<open>id\<close>, which the service never reads, is left out.
  \<^item> \<^verbatim>\<open>self.redis_client\<close> is one of: absent (\<^verbatim>\<open>None\<close>), present with every call raising
    (\<open>Unreachable\<close>), or present and answering (\<open>Connected\<close>). The flag of \<open>Connected\<close>
    tells how the client takes a field value of \<^verbatim>\<open>None\<close>: \<open>True\<close> when it refuses it
    (redis-py from 3.0 on raises \<^verbatim>\<open>DataError\<close>), \<open>False\<close> when it stores the text
    \<^verbatim>\<open>None\<close> (redis-py before 3.0). The statements about a connected client are proved for
    both.
\<close>

subsection \<open>Data model\<close>

type_synonym time = int
type_synonym token = string

datatype json = JNull | JBool bool | JNum int | JStr string | JTime time

type_synonym jdict = "string \<rightharpoonup> json"

text \<open>A message is the dict built in \<^verbatim>\<open>add_conversation_message\<close>.\<close>

record message =
  role :: string
  content :: string
  timestamp :: time
  metadata :: jdict

text \<open>
  \<^verbatim>\<open>UserSession\<close> (app/models/user.py). \<open>created_at\<close> and \<open>last_activity\<close> may be unset.
  \<open>attached\<close> is the identity of the object with respect to the ORM: an object that came
  out of \<^verbatim>\<open>db.query\<close> or went through \<^verbatim>\<open>db.add\<close> is tracked by the unit of work, an object
  built by the constructor \<^verbatim>\<open>UserSession(...)\<close> alone is not.
\<close>

record user_session =
  user_id :: int
  session_token :: token
  conversation_history :: "message list"
  current_story_context :: jdict
  learning_progress :: jdict
  personality_adaptations :: jdict
  created_at :: "time option"
  last_activity :: "time option"
  expires_at :: time
  attached :: bool

text \<open>
  The Redis hash stored under \<^verbatim>\<open>session:<token>\<close>: each field may be missing, and the key
  may carry a deadline set by \<^verbatim>\<open>expire\<close>. The field \<^verbatim>\<open>last_activity\<close> holds a text: the
  ISO form of an instant, or the text \<^verbatim>\<open>None\<close> that a client before redis-py 3.0 writes for
  the value \<^verbatim>\<open>None\<close>.
\<close>

datatype stamp = NoneText | Iso time

record cache_entry =
  ce_user_id :: "int option"
  ce_conversation_history :: "message list option"
  ce_current_story_context :: "jdict option"
  ce_learning_progress :: "jdict option"
  ce_personality_adaptations :: "jdict option"
  ce_last_activity :: "stamp option"
  ce_expires_at :: "time option"
  ce_deadline :: "time option"

record store =
  db :: "token \<rightharpoonup> user_session"
  redis :: "token \<rightharpoonup> cache_entry"

datatype redis_client = NoClient | Unreachable | Connected bool

datatype py_error = TypeError | OverflowError

definition max_conversation_length :: nat where
  "max_conversation_length = 100"

definition personality_analysis_threshold :: nat where
  "personality_analysis_threshold = 10"

definition session_lifetime :: int where
  "session_lifetime = 86400"

definition cache_ttl :: int where
  "cache_ttl = 86400"

subsection \<open>Python list slicing\<close>

text \<open>\<^verbatim>\<open>xs[i:]\<close>: a negative start counts from the end and is clamped at the front.\<close>

definition slice_from :: "int \<Rightarrow> 'a list \<Rightarrow> 'a list" where
  "slice_from i xs = (if i < 0 then drop (length xs - nat (- i)) xs else drop (nat i) xs)"

subsection \<open>The table\<close>

text \<open>
  Rows are kept under their unique \<^verbatim>\<open>session_token\<close>.
  \<^verbatim>\<open>db.query(UserSession).filter(session_token == tok, expires_at > now).first()\<close>
\<close>

definition db_query :: "(token \<rightharpoonup> user_session) \<Rightarrow> token \<Rightarrow> time \<Rightarrow> user_session option" where
  "db_query tbl tok now =
     (case tbl tok of
        None \<Rightarrow> None
      | Some r \<Rightarrow> if session_token r = tok \<and> now < expires_at r
                  then Some (r\<lparr>attached := True\<rparr>) else None)"

text \<open>
  \<^verbatim>\<open>db.commit()\<close> after assignments to the attributes of the session \<open>s\<close>.
  \<^item> The unit of work flushes the objects it tracks: nothing is written for an object that
    is not attached.
  \<^item> A column goes into the \<^verbatim>\<open>UPDATE\<close> when the value assigned differs from the value that
    the attribute held before, both compared when the flush runs. The four JSON columns are
    plain \<^verbatim>\<open>Column(JSON)\<close>: the list or dict that was loaded is not copied, so when the
    service changes it in place and assigns the same object back, old and new value are one
    object and the column is not written. \<open>held\<close> carries, column by column, the value of
    the object that the attribute held before the assignment, as that object is at the
    flush.
  \<^item> \<^verbatim>\<open>last_activity\<close> is declared with \<^verbatim>\<open>onupdate=func.now()\<close>: an \<^verbatim>\<open>UPDATE\<close> that does not
    write the column sets it to the current instant.
  \<^item> When no column differs there is no \<^verbatim>\<open>UPDATE\<close>.
\<close>

definition unchanged :: "user_session \<Rightarrow> user_session \<Rightarrow> bool" where
  "unchanged held s \<longleftrightarrow>
     conversation_history s = conversation_history held \<and>
     current_story_context s = current_story_context held \<and>
     learning_progress s = learning_progress held \<and>
     personality_adaptations s = personality_adaptations held \<and>
     last_activity s = last_activity held"

definition db_commit ::
  "(token \<rightharpoonup> user_session) \<Rightarrow> time \<Rightarrow> user_session \<Rightarrow> user_session \<Rightarrow> (token \<rightharpoonup> user_session)" where
  "db_commit tbl now held s =
     (if \<not> attached s \<or> unchanged held s then tbl
      else
        (case tbl (session_token s) of
           None \<Rightarrow> tbl
         | Some row \<Rightarrow>
             tbl(session_token s \<mapsto>
               row\<lparr>conversation_history :=
                      (if conversation_history s = conversation_history held
                       then conversation_history row else conversation_history s),
                    current_story_context :=
                      (if current_story_context s = current_story_context held
                       then current_story_context row else current_story_context s),
                    learning_progress :=
                      (if learning_progress s = learning_progress held
                       then learning_progress row else learning_progress s),
                    personality_adaptations :=
                      (if personality_adaptations s = personality_adaptations held
                       then personality_adaptations row else personality_adaptations s),
                    last_activity :=
                      (if last_activity s = last_activity held
                       then Some now else last_activity s)\<rparr>)))"

text \<open>
  The session object as the service reads it after \<^verbatim>\<open>db.commit()\<close>. The commit expires the
  attributes of an attached object, and the next read loads them from the row
  (\<^verbatim>\<open>expire_on_commit\<close>, which the ORM turns on unless the session factory says otherwise;
  the factory, app/core/database.py, is not among the sources). An object that is not
  attached keeps what was assigned to it.
\<close>

definition after_commit :: "(token \<rightharpoonup> user_session) \<Rightarrow> user_session \<Rightarrow> user_session" where
  "after_commit tbl s =
     (if attached s
      then (case tbl (session_token s) of
              None \<Rightarrow> s
            | Some row \<Rightarrow> row\<lparr>attached := True\<rparr>)
      else s)"

subsection \<open>The Redis hash\<close>

text \<open>A key whose deadline has passed is gone.\<close>

definition live :: "time \<Rightarrow> cache_entry option \<Rightarrow> cache_entry option" where
  "live now eo =
     (case eo of
        None \<Rightarrow> None
      | Some e \<Rightarrow> (case ce_deadline e of
                     None \<Rightarrow> Some e
                   | Some d \<Rightarrow> if now < d then Some e else None))"

definition no_fields :: "cache_entry \<Rightarrow> bool" where
  "no_fields e \<longleftrightarrow>
     ce_user_id e = None \<and> ce_conversation_history e = None \<and>
     ce_current_story_context e = None \<and> ce_learning_progress e = None \<and>
     ce_personality_adaptations e = None \<and> ce_last_activity e = None \<and>
     ce_expires_at e = None"

text \<open>\<^verbatim>\<open>hgetall\<close>: \<open>None\<close> stands for the empty dict of a missing key.\<close>

definition hgetall :: "time \<Rightarrow> (token \<rightharpoonup> cache_entry) \<Rightarrow> token \<Rightarrow> cache_entry option" where
  "hgetall now c tok =
     (case live now (c tok) of
        None \<Rightarrow> None
      | Some e \<Rightarrow> if no_fields e then None else Some e)"

text \<open>
  \<^verbatim>\<open>_cache_session\<close>: \<^verbatim>\<open>hmset\<close> writes all seven fields of the hash, then \<^verbatim>\<open>expire\<close> sets
  the deadline. Every exception is swallowed. The dict handed to \<^verbatim>\<open>hmset\<close> holds \<^verbatim>\<open>None\<close>
  for a session without \<open>last_activity\<close>: a client that refuses the value raises before
  anything is written, an older client writes the text \<^verbatim>\<open>None\<close>.
\<close>

definition cache_session ::
  "redis_client \<Rightarrow> time \<Rightarrow> token \<Rightarrow> user_session \<Rightarrow> (token \<rightharpoonup> cache_entry) \<Rightarrow> (token \<rightharpoonup> cache_entry)" where
  "cache_session rc now tok s c =
     (case rc of
        NoClient \<Rightarrow> c
      | Unreachable \<Rightarrow> c
      | Connected refuses_none \<Rightarrow>
          if refuses_none \<and> last_activity s = None then c
          else
            c(tok \<mapsto> \<lparr>ce_user_id = Some (user_id s),
                      ce_conversation_history = Some (conversation_history s),
                      ce_current_story_context = Some (current_story_context s),
                      ce_learning_progress = Some (learning_progress s),
                      ce_personality_adaptations = Some (personality_adaptations s),
                      ce_last_activity =
                        Some (case last_activity s of None \<Rightarrow> NoneText | Some t \<Rightarrow> Iso t),
                      ce_expires_at = Some (expires_at s),
                      ce_deadline = Some (now + cache_ttl)\<rparr>))"

text \<open>
  \<^verbatim>\<open>_get_cached_session\<close>: a missing \<open>expires_at\<close> or \<open>user_id\<close> is a \<^verbatim>\<open>KeyError\<close>, and the
  text \<^verbatim>\<open>None\<close> in \<open>last_activity\<close> is a \<^verbatim>\<open>ValueError\<close> of \<^verbatim>\<open>fromisoformat\<close>; both are
  swallowed with every other exception, and the hash stays as it is. An expired hash is
  deleted. The object returned is built by the constructor, so it has no \<open>created_at\<close> and
  is not attached.
\<close>

definition get_cached_session ::
  "redis_client \<Rightarrow> time \<Rightarrow> token \<Rightarrow> (token \<rightharpoonup> cache_entry) \<Rightarrow> user_session option \<times> (token \<rightharpoonup> cache_entry)" where
  "get_cached_session rc now tok c =
     (case rc of
        NoClient \<Rightarrow> (None, c)
      | Unreachable \<Rightarrow> (None, c)
      | Connected refuses_none \<Rightarrow>
          (case hgetall now c tok of
             None \<Rightarrow> (None, c)
           | Some e \<Rightarrow>
               (case ce_expires_at e of
                  None \<Rightarrow> (None, c)
                | Some ex \<Rightarrow>
                    if ex \<le> now then (None, c(tok := None))
                    else (case ce_user_id e of
                            None \<Rightarrow> (None, c)
                          | Some u \<Rightarrow>
                              if ce_last_activity e = Some NoneText then (None, c)
                              else
                                (Some \<lparr>user_id = u,
                                       session_token = tok,
                                       conversation_history =
                                         (case ce_conversation_history e of None \<Rightarrow> [] | Some h \<Rightarrow> h),
                                       current_story_context =
                                         (case ce_current_story_context e of None \<Rightarrow> Map.empty | Some d \<Rightarrow> d),
                                       learning_progress =
                                         (case ce_learning_progress e of None \<Rightarrow> Map.empty | Some d \<Rightarrow> d),
                                       personality_adaptations =
                                         (case ce_personality_adaptations e of None \<Rightarrow> Map.empty | Some d \<Rightarrow> d),
                                       created_at = None,
                                       last_activity =
                                         (case ce_last_activity e of Some (Iso t) \<Rightarrow> Some t | _ \<Rightarrow> None),
                                       expires_at = ex,
                                       attached = False\<rparr>, c)))))"

text \<open>
  \<^verbatim>\<open>_add_message_to_cache\<close>: \<^verbatim>\<open>hget\<close> of the history, append, trim, \<^verbatim>\<open>hset\<close>. On a missing
  key \<^verbatim>\<open>hset\<close> creates a hash with this one field and no deadline.
\<close>

definition add_message_to_cache ::
  "redis_client \<Rightarrow> time \<Rightarrow> token \<Rightarrow> message \<Rightarrow> (token \<rightharpoonup> cache_entry) \<Rightarrow> (token \<rightharpoonup> cache_entry)" where
  "add_message_to_cache rc now tok msg c =
     (case rc of
        NoClient \<Rightarrow> c
      | Unreachable \<Rightarrow> c
      | Connected refuses_none \<Rightarrow>
          (let current_history =
                 (case live now (c tok) of
                    None \<Rightarrow> []
                  | Some e \<Rightarrow> (case ce_conversation_history e of None \<Rightarrow> [] | Some h \<Rightarrow> h));
               appended = current_history @ [msg];
               trimmed = (if length appended > max_conversation_length
                          then slice_from (- int max_conversation_length) appended
                          else appended)
           in (case live now (c tok) of
                 None \<Rightarrow>
                   c(tok \<mapsto> \<lparr>ce_user_id = None,
                             ce_conversation_history = Some trimmed,
                             ce_current_story_context = None,
                             ce_learning_progress = None,
                             ce_personality_adaptations = None,
                             ce_last_activity = None,
                             ce_expires_at = None,
                             ce_deadline = None\<rparr>)
               | Some e \<Rightarrow> c(tok \<mapsto> e\<lparr>ce_conversation_history := Some trimmed\<rparr>))))"

subsection \<open>Session lifecycle\<close>

text \<open>
  \<^verbatim>\<open>create_session\<close>; \<open>tok\<close> is the fresh UUID of \<^verbatim>\<open>_generate_session_token\<close>. The row gets
  \<open>created_at\<close> from the server default, \<open>last_activity\<close> has no default.
\<close>

definition create_session :: "redis_client \<Rightarrow> time \<Rightarrow> token \<Rightarrow> int \<Rightarrow> store \<Rightarrow> token \<times> store" where
  "create_session rc now tok uid st =
     (let user_session =
            \<lparr>user_id = uid,
             session_token = tok,
             conversation_history = [],
             current_story_context = Map.empty,
             learning_progress = Map.empty,
             personality_adaptations = Map.empty,
             created_at = Some now,
             last_activity = None,
             expires_at = now + session_lifetime,
             attached = True\<rparr>;
          st1 = st\<lparr>db := (db st)(tok \<mapsto> user_session)\<rparr>
      in (tok, if rc \<noteq> NoClient
               then st1\<lparr>redis := cache_session rc now tok user_session (redis st1)\<rparr>
               else st1))"

definition get_session :: "redis_client \<Rightarrow> time \<Rightarrow> token \<Rightarrow> store \<Rightarrow> user_session option \<times> store" where
  "get_session rc now tok st =
     (let (cached_session, c1) =
            (if rc \<noteq> NoClient then get_cached_session rc now tok (redis st)
             else (None, redis st))
      in case cached_session of
           Some s \<Rightarrow> (Some s, st\<lparr>redis := c1\<rparr>)
         | None \<Rightarrow>
             (case db_query (db st) tok now of
                None \<Rightarrow> (None, st\<lparr>redis := c1\<rparr>)
              | Some s \<Rightarrow>
                  (Some s,
                   st\<lparr>redis := (if rc \<noteq> NoClient then cache_session rc now tok s c1 else c1)\<rparr>)))"

subsection \<open>Conversation history\<close>

text \<open>
  \<^verbatim>\<open>add_conversation_message\<close>. \<^verbatim>\<open>session.conversation_history or []\<close> is the loaded list
  itself unless that list is empty, in which case it is a new list; \<^verbatim>\<open>append\<close> changes the
  list in place, and the slice of the trim is a new list. So the list that the attribute
  held before the assignment is, at the commit, the loaded list with the message appended,
  or the empty loaded list.
\<close>

definition add_conversation_message ::
  "redis_client \<Rightarrow> time \<Rightarrow> token \<Rightarrow> string \<Rightarrow> string \<Rightarrow> jdict option \<Rightarrow> store \<Rightarrow> store" where
  "add_conversation_message rc now tok rl ct md st =
     (let msg = \<lparr>role = rl, content = ct, timestamp = now,
                 metadata = (case md of None \<Rightarrow> Map.empty | Some d \<Rightarrow> d)\<rparr>;
          (found, st1) = get_session rc now tok st;
          st2 =
            (case found of
               None \<Rightarrow> st1
             | Some s \<Rightarrow>
                 (let loaded = conversation_history s;
                      appended = loaded @ [msg];
                      trimmed = (if length appended > max_conversation_length
                                 then slice_from (- int max_conversation_length) appended
                                 else appended);
                      held = s\<lparr>conversation_history := (if loaded = [] then loaded else appended)\<rparr>;
                      s' = s\<lparr>conversation_history := trimmed, last_activity := Some now\<rparr>;
                      st' = st1\<lparr>db := db_commit (db st1) now held s'\<rparr>
                  in if rc \<noteq> NoClient
                     then st'\<lparr>redis := cache_session rc now tok (after_commit (db st') s') (redis st')\<rparr>
                     else st'))
      in if rc \<noteq> NoClient
         then st2\<lparr>redis := add_message_to_cache rc now tok msg (redis st2)\<rparr>
         else st2)"

text \<open>\<^verbatim>\<open>if limit:\<close> is false for \<^verbatim>\<open>None\<close> and for \<open>0\<close>.\<close>

definition get_conversation_history ::
  "redis_client \<Rightarrow> time \<Rightarrow> token \<Rightarrow> int option \<Rightarrow> store \<Rightarrow> message list \<times> store" where
  "get_conversation_history rc now tok limit st =
     (let (found, st1) = get_session rc now tok st
      in case found of
           None \<Rightarrow> ([], st1)
         | Some s \<Rightarrow>
             (let history = conversation_history s
              in case limit of
                   None \<Rightarrow> (history, st1)
                 | Some l \<Rightarrow> if l \<noteq> 0 then (slice_from (- l) history, st1)
                             else (history, st1)))"

subsection \<open>Progress and story context\<close>

text \<open>
  \<^verbatim>\<open>update_learning_progress\<close>. \<^verbatim>\<open>session.learning_progress or {}\<close> is the loaded dict itself
  unless that dict is empty, and \<^verbatim>\<open>update\<close> changes it in place.
\<close>

definition update_learning_progress ::
  "redis_client \<Rightarrow> time \<Rightarrow> token \<Rightarrow> jdict \<Rightarrow> store \<Rightarrow> store" where
  "update_learning_progress rc now tok progress_data st =
     (let (found, st1) = get_session rc now tok st
      in case found of
           None \<Rightarrow> st1
         | Some s \<Rightarrow>
             (let loaded = learning_progress s;
                  current_progress = loaded ++ progress_data;
                  held = s\<lparr>learning_progress :=
                             (if loaded = Map.empty then loaded else current_progress)\<rparr>;
                  s' = s\<lparr>learning_progress := current_progress, last_activity := Some now\<rparr>;
                  st' = st1\<lparr>db := db_commit (db st1) now held s'\<rparr>
              in if rc \<noteq> NoClient
                 then st'\<lparr>redis := cache_session rc now tok (after_commit (db st') s') (redis st')\<rparr>
                 else st'))"

text \<open>\<^verbatim>\<open>update_story_context\<close> assigns the dict of the caller.\<close>

definition update_story_context ::
  "redis_client \<Rightarrow> time \<Rightarrow> token \<Rightarrow> jdict \<Rightarrow> store \<Rightarrow> store" where
  "update_story_context rc now tok story_context st =
     (let (found, st1) = get_session rc now tok st
      in case found of
           None \<Rightarrow> st1
         | Some s \<Rightarrow>
             (let s' = s\<lparr>current_story_context := story_context, last_activity := Some now\<rparr>;
                  st' = st1\<lparr>db := db_commit (db st1) now s s'\<rparr>
              in if rc \<noteq> NoClient
                 then st'\<lparr>redis := cache_session rc now tok (after_commit (db st') s') (redis st')\<rparr>
                 else st'))"

subsection \<open>Personality analysis\<close>

text \<open>
  \<^verbatim>\<open>str.lower\<close> on the letters \<^verbatim>\<open>A\<close> to \<^verbatim>\<open>Z\<close>, and the substring test \<^verbatim>\<open>word in text\<close>.
\<close>

definition lower_char :: "char \<Rightarrow> char" where
  "lower_char c =
     (let n = (of_char c :: nat) in if 65 \<le> n \<and> n \<le> 90 then char_of (n + 32) else c)"

definition lower :: "string \<Rightarrow> string" where
  "lower s = map lower_char s"

fun starts_with :: "string \<Rightarrow> string \<Rightarrow> bool" where
  "starts_with text [] = True"
| "starts_with [] (w # ws) = False"
| "starts_with (c # cs) (w # ws) = (c = w \<and> starts_with cs ws)"

fun contains :: "string \<Rightarrow> string \<Rightarrow> bool" where
  "contains [] word = (word = [])"
| "contains (c # cs) word = (starts_with (c # cs) word \<or> contains cs word)"

definition positive_words :: "string list" where
  "positive_words = [''great'', ''awesome'', ''love'', ''excellent'', ''amazing'', ''fantastic'']"

definition negative_words :: "string list" where
  "negative_words = [''difficult'', ''hard'', ''confused'', ''stuck'', ''frustrated'', ''challenging'']"

definition visual_words :: "string list" where
  "visual_words = [''see'', ''show'', ''picture'', ''diagram'', ''visual'', ''image'']"

definition analytical_words :: "string list" where
  "analytical_words = [''analyze'', ''break down'', ''step by step'', ''detailed'', ''systematic'']"

definition practical_words :: "string list" where
  "practical_words = [''example'', ''practice'', ''try'', ''hands-on'', ''apply'', ''use'']"

text \<open>
  \<^verbatim>\<open>sum(sum(1 for word in words if word in msg["content"].lower()) for msg in user_messages)\<close>
\<close>

definition word_score :: "string list \<Rightarrow> message list \<Rightarrow> nat" where
  "word_score words user_messages =
     sum_list (map (\<lambda>msg. length (filter (\<lambda>word. contains (lower (content msg)) word) words))
                   user_messages)"

text \<open>
  \<^verbatim>\<open>valid_times\<close>: the \<^verbatim>\<open>response_time\<close> entries that are not \<^verbatim>\<open>None\<close>. \<^verbatim>\<open>sum\<close> raises
  \<^verbatim>\<open>TypeError\<close> on text; a boolean counts as 0 or 1.
\<close>

definition valid_times :: "message list \<Rightarrow> json list" where
  "valid_times user_messages =
     filter (\<lambda>t. t \<noteq> JNull) (List.map_filter (\<lambda>msg. metadata msg ''response_time'') user_messages)"

fun number_of :: "json \<Rightarrow> int option" where
  "number_of (JNum n) = Some n"
| "number_of (JBool b) = Some (if b then 1 else 0)"
| "number_of _ = None"

definition sum_times :: "json list \<Rightarrow> py_error + int" where
  "sum_times ts =
     (if list_all (\<lambda>t. number_of t \<noteq> None) ts
      then Inr (sum_list (map (\<lambda>t. the (number_of t)) ts))
      else Inl TypeError)"

text \<open>
  The blocks of \<^verbatim>\<open>_analyze_interaction_patterns\<close>, one function per adaptation key, for a
  non-empty list of messages. The averages are quotients of integers compared with
  constants; they are compared here after multiplying out: \<^verbatim>\<open>total_length / n > 200\<close> is
  \<open>total_length > 200 * n\<close>, \<^verbatim>\<open>question_count / n > 0.3\<close> is \<open>10 * question_count > 3 * n\<close>.
  The rounding of the float quotient changes no comparison for fewer than \<open>2 ^ 50\<close>
  messages; the one caller passes at most 20. A \<^verbatim>\<open>response_time\<close> that is a float has no
  value in \<open>json\<close>.
\<close>

definition communication_preference :: "message list \<Rightarrow> string" where
  "communication_preference user_messages =
     (let total_messages = length user_messages;
          total_length = sum_list (map (\<lambda>msg. length (content msg)) user_messages)
      in if total_length > 200 * total_messages then ''detailed''
         else if total_length < 50 * total_messages then ''concise''
         else ''balanced'')"

definition engagement_style :: "message list \<Rightarrow> string" where
  "engagement_style user_messages =
     (let total_messages = length user_messages;
          question_count = length (filter (\<lambda>msg. CHR ''?'' \<in> set (content msg)) user_messages)
      in if 10 * question_count > 3 * total_messages then ''inquisitive''
         else if 10 * question_count < total_messages then ''declarative''
         else ''balanced'')"

definition emotional_tone :: "message list \<Rightarrow> string" where
  "emotional_tone user_messages =
     (let positive_count = word_score positive_words user_messages;
          negative_count = word_score negative_words user_messages
      in if positive_count > negative_count * 2 then ''optimistic''
         else if negative_count > positive_count * 2 then ''needs_support''
         else ''neutral'')"

definition inferred_learning_style :: "message list \<Rightarrow> string option" where
  "inferred_learning_style user_messages =
     (let visual_score = word_score visual_words user_messages;
          analytical_score = word_score analytical_words user_messages;
          practical_score = word_score practical_words user_messages;
          max_score = max visual_score (max analytical_score practical_score)
      in if max_score > 0
         then Some (if visual_score = max_score then ''visual''
                    else if analytical_score = max_score then ''analytical''
                    else ''practical'')
         else None)"

text \<open>
  \<^verbatim>\<open>sum(valid_times) / len(valid_times)\<close> is the quotient of two integers as a float, rounded
  to the nearest; it raises \<^verbatim>\<open>OverflowError\<close> when the rounded quotient is beyond the largest
  float, that is from \<open>2 ^ 1024 - 2 ^ 970\<close> on in absolute value.
\<close>

definition float_overflow :: "int \<Rightarrow> int \<Rightarrow> bool" where
  "float_overflow a n \<longleftrightarrow> \<bar>a\<bar> \<ge> (2 ^ 1024 - 2 ^ 970) * n"

definition pacing_preference :: "message list \<Rightarrow> py_error + string option" where
  "pacing_preference user_messages =
     (let valid = valid_times user_messages
      in if valid = [] then Inr None
         else (case sum_times valid of
                 Inl e \<Rightarrow> Inl e
               | Inr time_sum \<Rightarrow>
                   if float_overflow time_sum (int (length valid)) then Inl OverflowError
                   else
                     Inr (Some (if time_sum < 5 * int (length valid) then ''fast''
                                else if time_sum > 30 * int (length valid) then ''thoughtful''
                                else ''moderate''))))"

text \<open>\<^verbatim>\<open>_analyze_interaction_patterns\<close>: the dict is filled key by key, in this order.\<close>

definition analyze_interaction_patterns :: "time \<Rightarrow> message list \<Rightarrow> py_error + jdict" where
  "analyze_interaction_patterns now user_messages =
     (if user_messages = [] then Inr Map.empty
      else
        (let a1 = Map.empty(''communication_preference'' \<mapsto>
                              JStr (communication_preference user_messages));
             a2 = a1(''engagement_style'' \<mapsto> JStr (engagement_style user_messages));
             a3 = a2(''emotional_tone'' \<mapsto> JStr (emotional_tone user_messages));
             a4 = (case inferred_learning_style user_messages of
                     None \<Rightarrow> a3
                   | Some style \<Rightarrow> a3(''inferred_learning_style'' \<mapsto> JStr style))
         in case pacing_preference user_messages of
              Inl e \<Rightarrow> Inl e
            | Inr pace \<Rightarrow>
                (let a5 = (case pace of
                             None \<Rightarrow> a4
                           | Some p \<Rightarrow> a4(''pacing_preference'' \<mapsto> JStr p))
                 in Inr (a5(''analysis_timestamp'' \<mapsto> JTime now,
                            ''message_count_analyzed'' \<mapsto> JNum (int (length user_messages)))))))"

text \<open>
  \<^verbatim>\<open>analyze_personality_adaptations\<close>. An exception of the analysis leaves the function
  before anything is written. The adaptations are merged into the loaded dict like the
  learning progress; \<open>last_activity\<close> is not assigned.
\<close>

definition analyze_personality_adaptations ::
  "redis_client \<Rightarrow> time \<Rightarrow> token \<Rightarrow> store \<Rightarrow> (py_error + jdict) \<times> store" where
  "analyze_personality_adaptations rc now tok st =
     (let (found, st1) = get_session rc now tok st
      in case found of
           None \<Rightarrow> (Inr Map.empty, st1)
         | Some s \<Rightarrow>
             (let history = conversation_history s
              in if length history < personality_analysis_threshold
                 then (Inr (personality_adaptations s), st1)
                 else
                   (let user_messages =
                          filter (\<lambda>msg. role msg = ''user'') (slice_from (- 20) history)
                    in if user_messages = [] then (Inr (personality_adaptations s), st1)
                       else
                         (case analyze_interaction_patterns now user_messages of
                            Inl e \<Rightarrow> (Inl e, st1)
                          | Inr adaptations \<Rightarrow>
                              if adaptations \<noteq> Map.empty
                              then
                                (let loaded = personality_adaptations s;
                                     current_adaptations = loaded ++ adaptations;
                                     held = s\<lparr>personality_adaptations :=
                                                (if loaded = Map.empty then loaded
                                                 else current_adaptations)\<rparr>;
                                     s' = s\<lparr>personality_adaptations := current_adaptations\<rparr>;
                                     st' = st1\<lparr>db := db_commit (db st1) now held s'\<rparr>
                                 in (Inr adaptations,
                                     if rc \<noteq> NoClient
                                     then st'\<lparr>redis := cache_session rc now tok
                                                         (after_commit (db st') s') (redis st')\<rparr>
                                     else st'))
                              else (Inr adaptations, st1)))))"

text \<open>
  The wording of the specification for the emotional tone: the number of occurrences of the
  words of a set in the analyzed messages, every match counted.
\<close>

fun occurrences :: "string \<Rightarrow> string \<Rightarrow> nat" where
  "occurrences [] word = 0"
| "occurrences (c # cs) word = (if starts_with (c # cs) word then 1 else 0) + occurrences cs word"

definition spec_occurrence_count :: "string list \<Rightarrow> message list \<Rightarrow> nat" where
  "spec_occurrence_count words msgs =
     sum_list (map (\<lambda>msg. sum_list (map (occurrences (lower (content msg))) words)) msgs)"

definition spec_emotional_tone :: "message list \<Rightarrow> string" where
  "spec_emotional_tone msgs =
     (let P = spec_occurrence_count positive_words msgs;
          N = spec_occurrence_count negative_words msgs
      in if P > 2 * N then ''optimistic''
         else if N > 2 * P then ''needs_support''
         else ''neutral'')"

section \<open>Notions used in the statements and proofs\<close>

text \<open>The message dict that \<^verbatim>\<open>add_conversation_message\<close> builds at the instant \<open>now\<close>.\<close>

definition new_message :: "time \<Rightarrow> string \<Rightarrow> string \<Rightarrow> jdict option \<Rightarrow> message" where
  "new_message now rl ct md =
     \<lparr>role = rl, content = ct, timestamp = now,
      metadata = (case md of None \<Rightarrow> Map.empty | Some d \<Rightarrow> d)\<rparr>"

text \<open>A sequence of \<^verbatim>\<open>add_conversation_message\<close> calls, each with its instant.\<close>

definition append_calls ::
  "redis_client \<Rightarrow> token \<Rightarrow> (time \<times> string \<times> string \<times> jdict option) list \<Rightarrow> store \<Rightarrow> store" where
  "append_calls rc tok calls st =
     foldl (\<lambda>st (now, rl, ct, md). add_conversation_message rc now tok rl ct md st) st calls"

definition most_recent :: "nat \<Rightarrow> 'a list \<Rightarrow> 'a list" where
  "most_recent n xs = drop (length xs - n) xs"

text \<open>
  The hash of \<open>tok\<close> can be read back as a session, carries the expiry \<open>ex\<close> and the
  history \<open>h\<close>, and its deadline is not before \<open>ex\<close>.
\<close>

definition cached_with :: "store \<Rightarrow> token \<Rightarrow> time \<Rightarrow> message list \<Rightarrow> bool" where
  "cached_with st tok ex h \<longleftrightarrow>
     (\<exists>e d. redis st tok = Some e \<and> ce_user_id e \<noteq> None \<and> ce_expires_at e = Some ex \<and>
            ce_last_activity e \<noteq> Some NoneText \<and>
            ce_conversation_history e = Some h \<and> ce_deadline e = Some d \<and> ex \<le> d)"

text \<open>The row of \<open>tok\<close> carries the expiry \<open>ex\<close> and the history \<open>h\<close>.\<close>

definition stored_with :: "store \<Rightarrow> token \<Rightarrow> time \<Rightarrow> message list \<Rightarrow> bool" where
  "stored_with st tok ex h \<longleftrightarrow>
     (\<exists>r. db st tok = Some r \<and> session_token r = tok \<and> expires_at r = ex \<and>
          conversation_history r = h)"

text \<open>
  The tail shared by the mutating operations: \<^verbatim>\<open>db.commit()\<close>, then \<^verbatim>\<open>_cache_session\<close>
  when there is a client.
\<close>

definition write_back ::
  "redis_client \<Rightarrow> time \<Rightarrow> token \<Rightarrow> user_session \<Rightarrow> user_session \<Rightarrow> store \<Rightarrow> store" where
  "write_back rc now tok held s' st1 =
     (let st' = st1\<lparr>db := db_commit (db st1) now held s'\<rparr>
      in if rc \<noteq> NoClient
         then st'\<lparr>redis := cache_session rc now tok (after_commit (db st') s') (redis st')\<rparr>
         else st')"

text \<open>No row of the table holds more than one history entry.\<close>

definition rows_short :: "store \<Rightarrow> bool" where
  "rows_short st \<longleftrightarrow> (\<forall>tok r. db st tok = Some r \<longrightarrow> length (conversation_history r) \<le> 1)"

text \<open>There is no client, or the client cannot reach Redis.\<close>

definition cache_down :: "redis_client \<Rightarrow> bool" where
  "cache_down rc \<longleftrightarrow> rc = NoClient \<or> rc = Unreachable"

text \<open>Inputs of the evaluations below.\<close>

definition empty_store :: store where
  "empty_store = \<lparr>db = Map.empty, redis = Map.empty\<rparr>"

definition ten_user_calls :: "(time \<times> string \<times> string \<times> jdict option) list" where
  "ten_user_calls =
     [(1, ''user'', ''hi'', None), (2, ''user'', ''hi'', None), (3, ''user'', ''hi'', None),
      (4, ''user'', ''hi'', None), (5, ''user'', ''hi'', None), (6, ''user'', ''hi'', None),
      (7, ''user'', ''hi'', None), (8, ''user'', ''hi'', None), (9, ''user'', ''hi'', None),
      (10, ''user'', ''hi'', None)]"

definition ten_assistant_calls :: "(time \<times> string \<times> string \<times> jdict option) list" where
  "ten_assistant_calls =
     [(1, ''assistant'', ''hi'', None), (2, ''assistant'', ''hi'', None),
      (3, ''assistant'', ''hi'', None), (4, ''assistant'', ''hi'', None),
      (5, ''assistant'', ''hi'', None), (6, ''assistant'', ''hi'', None),
      (7, ''assistant'', ''hi'', None), (8, ''assistant'', ''hi'', None),
      (9, ''assistant'', ''hi'', None), (10, ''assistant'', ''hi'', None)]"

definition three_user_calls :: "(time \<times> string \<times> string \<times> jdict option) list" where
  "three_user_calls =
     [(1, ''user'', ''ok'', None), (2, ''user'', ''What is this?'', None),
      (3, ''user'', ''I love this, it is great!'', None)]"

definition quiet_store :: store where
  "quiet_store =
     append_calls (Connected True) ''t'' ten_assistant_calls
       (snd (create_session (Connected True) 0 ''t'' 1 empty_store))"

definition short_store :: "redis_client \<Rightarrow> store" where
  "short_store rc = append_calls rc ''t'' three_user_calls (snd (create_session rc 0 ''t'' 1 empty_store))"

definition aged_store :: store where
  "aged_store =
     update_story_context (Connected True) 10 ''t'' Map.empty
       (snd (create_session (Connected True) 0 ''t'' 1 empty_store))"

text \<open>
  The amended reading of the emotional-tone counts: for each message, the number of words
  of the set that occur somewhere in its lower-cased content.
\<close>

definition is_substring :: "string \<Rightarrow> string \<Rightarrow> bool" where
  "is_substring word body \<longleftrightarrow> (\<exists>before after. body = before @ word @ after)"

definition words_found :: "string list \<Rightarrow> message list \<Rightarrow> nat" where
  "words_found words msgs =
     sum_list (map (\<lambda>msg. card {word \<in> set words. is_substring word (lower (content msg))}) msgs)"

definition mixed_message :: message where
  "mixed_message =
     \<lparr>role = ''user'', content = ''great great great hard'', timestamp = 1, metadata = Map.empty\<rparr>"

definition praise_message :: message where
  "praise_message =
     \<lparr>role = ''user'', content = ''I LOVE this, it is Great!'', timestamp = 1,
      metadata = Map.empty\<rparr>"

text \<open>\<open>n\<close> calls at the instants \<open>1, \<dots>, n\<close>, and the message that call \<open>i\<close> appends.\<close>

definition numbered_calls :: "nat \<Rightarrow> (time \<times> string \<times> string \<times> jdict option) list" where
  "numbered_calls n = map (\<lambda>i. (int i, ''user'', ''m'', None)) [1..<Suc n]"

definition numbered_message :: "nat \<Rightarrow> message" where
  "numbered_message i = \<lparr>role = ''user'', content = ''m'', timestamp = int i, metadata = Map.empty\<rparr>"

definition one_message_store :: "redis_client \<Rightarrow> store" where
  "one_message_store rc =
     add_conversation_message rc 10 ''t'' ''user'' ''hi'' None
       (snd (create_session rc 0 ''t'' 1 empty_store))"

definition three_letter_store :: store where
  "three_letter_store =
     append_calls (Connected True) ''t''
       [(1, ''user'', ''a'', None), (2, ''assistant'', ''b'', None), (3, ''user'', ''c'', None)]
       (snd (create_session (Connected True) 0 ''t'' 1 empty_store))"

definition five_user_calls :: "(time \<times> string \<times> string \<times> jdict option) list" where
  "five_user_calls =
     [(1, ''user'', ''hi'', None), (2, ''user'', ''hi'', None), (3, ''user'', ''hi'', None),
      (4, ''user'', ''hi'', None), (5, ''user'', ''hi'', None)]"

definition twice_updated_store :: "redis_client \<Rightarrow> store" where
  "twice_updated_store rc =
     update_learning_progress rc 2 ''t'' [''b'' \<mapsto> JNum 2]
       (update_learning_progress rc 1 ''t'' [''a'' \<mapsto> JNum 1]
          (snd (create_session rc 0 ''t'' 1 empty_store)))"

text \<open>
  The states that the service reaches from the empty store, by its public operations in any
  order, with any arguments, at any instants and with the Redis client in any state at
  each call; between two calls Redis may lose a hash. \<^verbatim>\<open>get_personalized_recommendations\<close>
  touches the store through \<^verbatim>\<open>get_session\<close> alone. No other code of the repository
  writes the table \<^verbatim>\<open>user_sessions\<close> or the hashes.
\<close>

inductive reachable :: "store \<Rightarrow> bool" where
  start: "reachable empty_store"
| create: "reachable st \<Longrightarrow> reachable (snd (create_session rc now tok uid st))"
| load: "reachable st \<Longrightarrow> reachable (snd (get_session rc now tok st))"
| append: "reachable st \<Longrightarrow> reachable (add_conversation_message rc now tok rl ct md st)"
| history: "reachable st \<Longrightarrow> reachable (snd (get_conversation_history rc now tok limit st))"
| progress: "reachable st \<Longrightarrow> reachable (update_learning_progress rc now tok p st)"
| story: "reachable st \<Longrightarrow> reachable (update_story_context rc now tok c st)"
| analysis: "reachable st \<Longrightarrow> reachable (snd (analyze_personality_adaptations rc now tok st))"
| evict: "reachable st \<Longrightarrow> reachable (st\<lparr>redis := (redis st)(tok := None)\<rparr>)"

section \<open>Evaluation lemmas\<close>

lemmas store_defs =
  create_session_def get_session_def add_conversation_message_def get_conversation_history_def
  update_learning_progress_def update_story_context_def
  cache_session_def get_cached_session_def add_message_to_cache_def
  db_query_def db_commit_def unchanged_def after_commit_def
  live_def hgetall_def no_fields_def slice_from_def
  max_conversation_length_def personality_analysis_threshold_def cache_ttl_def
  session_lifetime_def empty_store_def append_calls_def

lemmas analysis_defs =
  analyze_personality_adaptations_def analyze_interaction_patterns_def
  communication_preference_def engagement_style_def emotional_tone_def
  inferred_learning_style_def pacing_preference_def float_overflow_def
  word_score_def positive_words_def negative_words_def visual_words_def analytical_words_def
  practical_words_def valid_times_def sum_times_def lower_def lower_char_def List.map_filter_def
  char_of_def bit_Suc_0_iff

section \<open>What a load does to the store\<close>

lemma get_session_db: "db (snd (get_session rc now tok st)) = db st"
  by (simp add: get_session_def split: prod.splits option.splits)

lemma get_cached_session_other_keys:
  "t \<noteq> tok \<Longrightarrow> snd (get_cached_session rc now tok c) t = c t"
  by (simp add: get_cached_session_def split: redis_client.splits option.splits)

lemma cache_session_other_keys:
  "t \<noteq> tok \<Longrightarrow> cache_session rc now tok s c t = c t"
  by (simp add: cache_session_def split: redis_client.splits)

lemma get_session_other_keys:
  assumes "t \<noteq> tok"
  shows "redis (snd (get_session rc now tok st)) t = redis st t"
proof -
  obtain r c1 where g: "get_cached_session rc now tok (redis st) = (r, c1)"
    by (cases "get_cached_session rc now tok (redis st)")
  have c1: "c1 t = redis st t"
    using get_cached_session_other_keys[OF assms, of rc now "redis st"] g by simp
  show ?thesis
    using assms c1 g
    by (auto simp: get_session_def cache_session_other_keys split: option.splits)
qed

lemma get_cached_session_hit:
  "get_cached_session rc now tok c = (Some s, c1) \<Longrightarrow> c1 = c \<and> \<not> attached s \<and> session_token s = tok"
  by (auto simp: get_cached_session_def split: redis_client.splits option.splits if_splits)

lemma get_session_cache_entry:
  assumes "get_session rc now tok st = (Some s, st1)" "redis st1 tok = Some e"
  shows "redis st tok = Some e \<or>
         (ce_personality_adaptations e = Some (personality_adaptations s) \<and>
          ce_conversation_history e = Some (conversation_history s))"
proof -
  let ?cached = "if rc \<noteq> NoClient then get_cached_session rc now tok (redis st)
                 else (None, redis st)"
  obtain r c1 where g: "?cached = (r, c1)"
    by (cases ?cached)
  show ?thesis
  proof (cases r)
    case (Some s0)
    then have "c1 = redis st"
      using g get_cached_session_hit by (fastforce split: if_splits)
    then show ?thesis using assms g Some
      by (auto simp: get_session_def)
  next
    case None
    have c1: "c1 tok = redis st tok \<or> c1 tok = None"
      using g by (auto simp: get_cached_session_def split: redis_client.splits option.splits if_splits)
    have "redis st1 tok = c1 tok \<or>
          (\<exists>s'. db_query (db st) tok now = Some s' \<and> s = s' \<and>
                redis st1 tok = cache_session rc now tok s' c1 tok)"
      using assms(1) g None
      by (auto simp: get_session_def split: option.splits if_splits)
    then show ?thesis using assms(2) c1
      by (auto simp: cache_session_def split: if_splits redis_client.splits)
  qed
qed

lemma get_session_no_cache:
  "cache_down rc \<Longrightarrow> get_session rc now tok st = (db_query (db st) tok now, st)"
  by (cases rc)
     (auto simp: cache_down_def get_session_def get_cached_session_def cache_session_def
       split: option.splits)

lemma get_session_token:
  "get_session rc now tok st = (Some s, st1) \<Longrightarrow> session_token s = tok"
  by (auto simp: get_session_def get_cached_session_def db_query_def
      split: prod.splits option.splits if_splits redis_client.splits)

lemma get_session_attached:
  "cache_down rc \<Longrightarrow> get_session rc now tok st = (Some s, st1) \<Longrightarrow> attached s"
  by (auto simp: get_session_no_cache db_query_def split: option.splits if_splits)

text \<open>A session is served from the cache, which leaves the store as it is, or from its row.\<close>

lemma get_session_source:
  assumes "get_session rc now tok st = (Some s, st1)"
  shows "(\<not> attached s \<and> st1 = st) \<or> (\<exists>r. db st tok = Some r \<and> s = r\<lparr>attached := True\<rparr>)"
proof -
  let ?cached = "if rc \<noteq> NoClient then get_cached_session rc now tok (redis st)
                 else (None, redis st)"
  obtain r c1 where g: "?cached = (r, c1)"
    by (cases ?cached)
  show ?thesis
  proof (cases r)
    case (Some s0)
    then have "c1 = redis st" "\<not> attached s0"
      using g get_cached_session_hit by (fastforce split: if_splits)+
    then show ?thesis using assms g Some
      by (auto simp: get_session_def)
  next
    case None
    then show ?thesis using assms g
      by (auto simp: get_session_def db_query_def split: option.splits if_splits)
  qed
qed

section \<open>Facts about the analysis and about slices\<close>

lemma analysis_counts_messages:
  assumes "analyze_interaction_patterns now u = Inr a" "u \<noteq> []"
  shows "a ''message_count_analyzed'' = Some (JNum (int (length u)))"
  using assms
  by (auto simp: analyze_interaction_patterns_def Let_def split: sum.splits)

lemma most_recent_entries:
  "\<exists>older. xs = older @ drop (length xs - n) xs"
  by (rule exI[of _ "take (length xs - n) xs"]) simp

section \<open>Substrings and word counts\<close>

lemma starts_with_iff: "starts_with body word \<longleftrightarrow> (\<exists>after. body = word @ after)"
  by (induction body word rule: starts_with.induct) auto

lemma contains_iff: "contains body word \<longleftrightarrow> is_substring word body"
proof (induction body)
  case Nil
  then show ?case by (simp add: is_substring_def)
next
  case (Cons c cs)
  have "is_substring word (c # cs) \<longleftrightarrow> (\<exists>after. c # cs = word @ after) \<or> is_substring word cs"
  proof
    assume "is_substring word (c # cs)"
    then obtain before after where ba: "c # cs = before @ word @ after"
      by (auto simp: is_substring_def)
    show "(\<exists>after. c # cs = word @ after) \<or> is_substring word cs"
    proof (cases before)
      case Nil
      then show ?thesis using ba by auto
    next
      case (Cons b bs)
      then have "cs = bs @ word @ after" using ba by simp
      then show ?thesis by (auto simp: is_substring_def)
    qed
  next
    assume "(\<exists>after. c # cs = word @ after) \<or> is_substring word cs"
    then show "is_substring word (c # cs)"
    proof
      assume "\<exists>after. c # cs = word @ after"
      then obtain after where "c # cs = [] @ word @ after" by auto
      then show ?thesis unfolding is_substring_def by blast
    next
      assume "is_substring word cs"
      then obtain before after where "cs = before @ word @ after"
        by (auto simp: is_substring_def)
      then have "c # cs = (c # before) @ word @ after" by simp
      then show ?thesis unfolding is_substring_def by blast
    qed
  qed
  then show ?case using Cons by (simp add: starts_with_iff)
qed

lemma words_of_one_message:
  assumes "distinct words"
  shows "length (filter (\<lambda>word. contains body word) words) =
         card {word \<in> set words. is_substring word body}"
proof -
  have "{word \<in> set words. is_substring word body} = {word. contains body word} \<inter> set words"
    by (auto simp: contains_iff)
  then show ?thesis
    using distinct_length_filter[OF assms, of "\<lambda>word. contains body word"] by simp
qed

lemma word_score_words_found:
  assumes "distinct words"
  shows "word_score words msgs = words_found words msgs"
  unfolding word_score_def words_found_def
  by (induction msgs) (simp_all add: words_of_one_message[OF assms])

lemma analysis_emotional_tone:
  assumes "analyze_interaction_patterns now msgs = Inr a" "msgs \<noteq> []"
  shows "a ''emotional_tone'' = Some (JStr (emotional_tone msgs))"
  using assms
  by (auto simp: analyze_interaction_patterns_def Let_def split: sum.splits option.splits)

section \<open>The window of the analysis\<close>

lemma analysis_window:
  assumes "get_session rc now tok st = (Some s, st1)"
    and "10 \<le> length (conversation_history s)"
  shows "fst (analyze_personality_adaptations rc now tok st) =
           (if filter (\<lambda>m. role m = ''user'')
                 (drop (length (conversation_history s) - 20) (conversation_history s)) = []
            then Inr (personality_adaptations s)
            else analyze_interaction_patterns now
                   (filter (\<lambda>m. role m = ''user'')
                      (drop (length (conversation_history s) - 20) (conversation_history s))))"
    and "filter (\<lambda>m. role m = ''user'')
           (drop (length (conversation_history s) - 20) (conversation_history s)) = [] \<Longrightarrow>
         snd (analyze_personality_adaptations rc now tok st) = st1"
proof -
  let ?u = "filter (\<lambda>m. role m = ''user'')
              (drop (length (conversation_history s) - 20) (conversation_history s))"
  have an: "\<And>a. analyze_interaction_patterns now ?u = Inr a \<Longrightarrow> ?u \<noteq> [] \<Longrightarrow> a \<noteq> Map.empty"
    using analysis_counts_messages by fastforce
  show "fst (analyze_personality_adaptations rc now tok st) =
           (if ?u = [] then Inr (personality_adaptations s) else analyze_interaction_patterns now ?u)"
    using assms an
    by (auto simp: analyze_personality_adaptations_def personality_analysis_threshold_def
        slice_from_def Let_def split: sum.splits)
  show "?u = [] \<Longrightarrow> snd (analyze_personality_adaptations rc now tok st) = st1"
    using assms
    by (simp add: analyze_personality_adaptations_def personality_analysis_threshold_def
        slice_from_def Let_def)
qed

section \<open>Appending with a connected cache\<close>

lemma trim_most_recent:
  "(if length xs > max_conversation_length
    then slice_from (- int max_conversation_length) xs else xs) = most_recent 100 xs"
  by (simp add: slice_from_def most_recent_def max_conversation_length_def)

lemma most_recent_append:
  "most_recent n (most_recent n xs @ ys) = most_recent n (xs @ ys)"
  by (cases "length xs \<le> n") (simp_all add: most_recent_def add.commute)

lemma length_most_recent: "length (most_recent n xs) \<le> n"
  by (simp add: most_recent_def)

lemma add_message_connected_step:
  assumes "cached_with st tok ex h" "now < ex" "ex \<le> now + cache_ttl"
  shows "cached_with (add_conversation_message (Connected b) now tok rl ct md st) tok ex
           (most_recent 100 (h @ [new_message now rl ct md, new_message now rl ct md]))"
proof -
  from assms(1) obtain e d u where e: "redis st tok = Some e" "ce_user_id e = Some u"
    "ce_expires_at e = Some ex" "ce_conversation_history e = Some h" "ce_deadline e = Some d" "ex \<le> d"
    "ce_last_activity e \<noteq> Some NoneText"
    by (auto simp: cached_with_def)
  have hit: "get_session (Connected b) now tok st =
      (Some \<lparr>user_id = u, session_token = tok, conversation_history = h,
             current_story_context = (case ce_current_story_context e of None \<Rightarrow> Map.empty | Some d \<Rightarrow> d),
             learning_progress = (case ce_learning_progress e of None \<Rightarrow> Map.empty | Some d \<Rightarrow> d),
             personality_adaptations = (case ce_personality_adaptations e of None \<Rightarrow> Map.empty | Some d \<Rightarrow> d),
             created_at = None,
             last_activity = (case ce_last_activity e of Some (Iso t) \<Rightarrow> Some t | _ \<Rightarrow> None),
             expires_at = ex, attached = False\<rparr>, st)"
    using e assms(2)
    by (simp add: get_session_def get_cached_session_def hgetall_def live_def no_fields_def)
  have "most_recent 100 (most_recent 100 (h @ [new_message now rl ct md]) @ [new_message now rl ct md])
        = most_recent 100 (h @ [new_message now rl ct md, new_message now rl ct md])"
    by (simp add: most_recent_append)
  then show ?thesis
    using assms(2,3)
    unfolding add_conversation_message_def hit new_message_def[symmetric]
    by (simp add: Let_def trim_most_recent cache_session_def add_message_to_cache_def live_def
        db_commit_def after_commit_def cached_with_def cache_ttl_def)
qed

lemma append_calls_connected:
  assumes "cached_with st tok ex h"
    and "length h \<le> 100"
    and "\<forall>c\<in>set calls. fst c < ex \<and> ex \<le> fst c + cache_ttl"
  shows "cached_with (append_calls (Connected b) tok calls st) tok ex
           (most_recent 100
              (h @ concat (map (\<lambda>(now, rl, ct, md). [new_message now rl ct md, new_message now rl ct md]) calls)))"
  using assms
proof (induction calls arbitrary: st h)
  case Nil
  then show ?case
    by (auto simp: append_calls_def cached_with_def most_recent_def)
next
  case (Cons c calls)
  obtain now rl ct md where c: "c = (now, rl, ct, md)" by (cases c)
  let ?m = "new_message now rl ct md"
  have step: "cached_with (add_conversation_message (Connected b) now tok rl ct md st) tok ex
                (most_recent 100 (h @ [?m, ?m]))"
    using Cons.prems c by (intro add_message_connected_step) auto
  have "cached_with (append_calls (Connected b) tok calls
                       (add_conversation_message (Connected b) now tok rl ct md st)) tok ex
          (most_recent 100 (most_recent 100 (h @ [?m, ?m]) @
             concat (map (\<lambda>(now, rl, ct, md). [new_message now rl ct md, new_message now rl ct md]) calls)))"
    using Cons.IH[OF step length_most_recent] Cons.prems(3) by simp
  then show ?case
    by (simp add: c append_calls_def most_recent_append)
qed

lemma history_of_cached:
  assumes "cached_with st tok ex h" "now < ex"
  shows "fst (get_conversation_history (Connected b) now tok None st) = h"
  using assms
  by (auto simp: cached_with_def get_conversation_history_def get_session_def
      get_cached_session_def hgetall_def live_def no_fields_def)

lemma drop_concat_pairs:
  "drop (2 * k) (concat (map (\<lambda>x. [f x, f x]) xs)) = concat (map (\<lambda>x. [f x, f x]) (drop k xs))"
proof (induction xs arbitrary: k)
  case Nil
  then show ?case by simp
next
  case (Cons x xs)
  then show ?case by (cases k) simp_all
qed

lemma length_concat_pairs: "length (concat (map (\<lambda>x. [f x, f x]) xs)) = 2 * length xs"
  by (induction xs) simp_all

text \<open>
  The first append after \<^verbatim>\<open>create_session\<close> finds no hash that can be read (a client that
  refuses \<^verbatim>\<open>None\<close> has written none, an older client one whose \<open>last_activity\<close> does not
  parse), loads the row, writes the first message to it and caches the session.
\<close>

lemma first_append_after_create:
  "cached_with (add_conversation_message (Connected b) 1 ''t'' ''user'' ''m'' None
                  (snd (create_session (Connected b) 0 ''t'' 1 empty_store)))
     ''t'' (0 + session_lifetime) (most_recent 100 ([] @ [numbered_message 1, numbered_message 1]))"
  by (cases b)
     (simp_all add: store_defs Let_def cached_with_def most_recent_def numbered_message_def)

lemma connected_history_after_appends:
  assumes "0 < n" "n < 86399"
  shows "fst (get_conversation_history (Connected b) (int n + 1) ''t'' None
            (append_calls (Connected b) ''t'' (numbered_calls n)
               (snd (create_session (Connected b) 0 ''t'' 1 empty_store)))) =
         most_recent 100 (concat (map (\<lambda>i. [numbered_message i, numbered_message i]) [1..<Suc n]))"
proof -
  let ?rest = "map (\<lambda>i. (int i, ''user'', ''m'', None :: jdict option)) [2..<Suc n]"
  let ?st1 = "add_conversation_message (Connected b) 1 ''t'' ''user'' ''m'' None
                (snd (create_session (Connected b) 0 ''t'' 1 empty_store))"
  have upt: "[1..<Suc n] = 1 # [2..<Suc n]"
    using assms(1) by (simp add: upt_conv_Cons numeral_2_eq_2 del: upt_Suc)
  have calls: "numbered_calls n = (1, ''user'', ''m'', None) # ?rest"
    unfolding numbered_calls_def upt by simp
  have run: "append_calls (Connected b) ''t'' (numbered_calls n)
               (snd (create_session (Connected b) 0 ''t'' 1 empty_store)) =
             append_calls (Connected b) ''t'' ?rest ?st1"
    by (simp add: calls append_calls_def)
  have times: "\<forall>c\<in>set ?rest. fst c < 0 + session_lifetime \<and> 0 + session_lifetime \<le> fst c + cache_ttl"
    using assms(2) by (auto simp: session_lifetime_def cache_ttl_def)
  have msgs: "concat (map (\<lambda>(now, rl, ct, md). [new_message now rl ct md, new_message now rl ct md]) ?rest) =
        concat (map (\<lambda>i. [numbered_message i, numbered_message i]) [2..<Suc n])"
    by (simp add: numbered_message_def new_message_def comp_def)
  have "cached_with (append_calls (Connected b) ''t'' ?rest ?st1) ''t'' (0 + session_lifetime)
          (most_recent 100
             (most_recent 100 ([] @ [numbered_message 1, numbered_message 1]) @
              concat (map (\<lambda>i. [numbered_message i, numbered_message i]) [2..<Suc n])))"
    using append_calls_connected[OF first_append_after_create length_most_recent times] msgs
    by simp
  then have "cached_with (append_calls (Connected b) ''t'' ?rest ?st1) ''t'' (0 + session_lifetime)
          (most_recent 100 (concat (map (\<lambda>i. [numbered_message i, numbered_message i]) [1..<Suc n])))"
    unfolding most_recent_append upt by simp
  then show ?thesis
    unfolding run using assms(2)
    by (intro history_of_cached[where ex = "0 + session_lifetime"])
       (simp_all add: session_lifetime_def)
qed

section \<open>Appending without a cache\<close>

text \<open>
  Without a cache every call loads the session from its row. The first message reaches the
  row, because the empty list of the row is replaced by a new list. A later message is
  appended to the loaded list in place and does not reach the row, unless the list has
  grown to the bound, where the trim makes a new list.
\<close>

lemma add_message_no_cache_step:
  assumes "cache_down rc" "stored_with st tok ex h" "now < ex"
  shows "stored_with (add_conversation_message rc now tok rl ct md st) tok ex
           (if h = [] \<or> 100 \<le> length h then most_recent 100 (h @ [new_message now rl ct md])
            else h)"
proof -
  from assms(2) obtain r where r: "db st tok = Some r" "session_token r = tok"
    "expires_at r = ex" "conversation_history r = h"
    by (auto simp: stored_with_def)
  have hit: "get_session rc now tok st = (Some (r\<lparr>attached := True\<rparr>), st)"
    using r assms(1,3) by (simp add: get_session_no_cache db_query_def)
  have trim: "100 \<le> length h \<Longrightarrow> most_recent 100 (h @ [new_message now rl ct md]) \<noteq>
                h @ [new_message now rl ct md]"
    using length_most_recent[of 100 "h @ [new_message now rl ct md]"] by auto
  have keep: "\<not> 100 \<le> length h \<Longrightarrow> most_recent 100 (h @ [new_message now rl ct md]) =
                h @ [new_message now rl ct md]"
    by (simp add: most_recent_def)
  show ?thesis
    using assms(1) r trim keep
    unfolding add_conversation_message_def hit new_message_def[symmetric]
    by (cases rc)
       (auto simp: cache_down_def Let_def trim_most_recent cache_session_def
         add_message_to_cache_def db_commit_def unchanged_def stored_with_def)
qed

lemma append_calls_no_cache:
  assumes "cache_down rc" "stored_with st tok ex h"
    and "h \<noteq> []" "length h < 100"
    and "\<forall>c\<in>set calls. fst c < ex"
  shows "stored_with (append_calls rc tok calls st) tok ex h"
  using assms
proof (induction calls arbitrary: st)
  case Nil
  then show ?case by (simp add: append_calls_def)
next
  case (Cons c calls)
  obtain now rl ct md where c: "c = (now, rl, ct, md)" by (cases c)
  have "stored_with (add_conversation_message rc now tok rl ct md st) tok ex h"
    using add_message_no_cache_step[OF Cons.prems(1,2), of now rl ct md] Cons.prems(3,4,5) c
    by simp
  from Cons.IH[OF Cons.prems(1) this] Cons.prems(3,4,5)
  show ?case by (simp add: c append_calls_def)
qed

lemma history_of_stored:
  assumes "cache_down rc" "stored_with st tok ex h" "now < ex"
  shows "fst (get_conversation_history rc now tok None st) = h"
  using assms
  by (auto simp: stored_with_def get_conversation_history_def get_session_no_cache db_query_def)

lemma create_session_stored:
  "stored_with (snd (create_session rc now tok uid st)) tok (now + session_lifetime) []"
  by (simp add: create_session_def stored_with_def Let_def)

text \<open>Of the messages appended to a new session without a cache, only the first is kept.\<close>

lemma no_cache_first_append_is_kept:
  assumes "cache_down rc" "0 < n" "n < 86399"
  shows "fst (get_conversation_history rc (int n + 1) ''t'' None
            (append_calls rc ''t'' (numbered_calls n)
               (snd (create_session rc 0 ''t'' 1 empty_store)))) = [numbered_message 1]"
proof -
  let ?rest = "map (\<lambda>i. (int i, ''user'', ''m'', None :: jdict option)) [2..<Suc n]"
  let ?st1 = "add_conversation_message rc 1 ''t'' ''user'' ''m'' None
                (snd (create_session rc 0 ''t'' 1 empty_store))"
  have upt: "[1..<Suc n] = 1 # [2..<Suc n]"
    using assms(2) by (simp add: upt_conv_Cons numeral_2_eq_2 del: upt_Suc)
  have calls: "numbered_calls n = (1, ''user'', ''m'', None) # ?rest"
    unfolding numbered_calls_def upt by simp
  have run: "append_calls rc ''t'' (numbered_calls n)
               (snd (create_session rc 0 ''t'' 1 empty_store)) =
             append_calls rc ''t'' ?rest ?st1"
    by (simp add: calls append_calls_def)
  have m: "new_message 1 ''user'' ''m'' None = numbered_message 1"
    by (simp add: new_message_def numbered_message_def)
  have first: "stored_with ?st1 ''t'' (0 + session_lifetime) [numbered_message 1]"
    using add_message_no_cache_step[OF assms(1) create_session_stored[of rc 0 "''t''" 1 empty_store],
        of 1 "''user''" "''m''" None]
    by (simp add: m most_recent_def session_lifetime_def)
  have times: "\<forall>c\<in>set ?rest. fst c < 0 + session_lifetime"
    using assms(3) by (auto simp: session_lifetime_def)
  have "stored_with (append_calls rc ''t'' ?rest ?st1) ''t'' (0 + session_lifetime) [numbered_message 1]"
    by (rule append_calls_no_cache[OF assms(1) first _ _ times]) simp_all
  then show ?thesis
    unfolding run using assms
    by (intro history_of_stored[where ex = "0 + session_lifetime"])
       (simp_all add: session_lifetime_def)
qed

section \<open>The rows of the table\<close>

lemma db_commit_rows_short:
  assumes "\<forall>t r. tbl t = Some r \<longrightarrow> length (conversation_history r) \<le> 1"
    and "attached s \<Longrightarrow> conversation_history s = conversation_history held \<or>
                          length (conversation_history s) \<le> 1"
  shows "\<forall>t r. db_commit tbl now held s t = Some r \<longrightarrow> length (conversation_history r) \<le> 1"
  using assms by (auto simp: db_commit_def split: option.splits if_splits)

lemma db_commit_history_kept:
  "db_commit tbl now held s t = Some r \<Longrightarrow> conversation_history s = conversation_history held \<Longrightarrow>
   \<exists>r0. tbl t = Some r0 \<and> conversation_history r = conversation_history r0"
  by (auto simp: db_commit_def split: option.splits if_splits)

lemma rows_short_empty_store: "rows_short empty_store"
  by (simp add: rows_short_def empty_store_def)

lemma rows_short_create_session:
  "rows_short st \<Longrightarrow> rows_short (snd (create_session rc now tok uid st))"
  by (auto simp: rows_short_def create_session_def Let_def)

lemma rows_short_get_session:
  "rows_short st \<Longrightarrow> rows_short (snd (get_session rc now tok st))"
  by (simp add: rows_short_def get_session_db)

lemma rows_short_get_conversation_history:
  "rows_short st \<Longrightarrow> rows_short (snd (get_conversation_history rc now tok limit st))"
  using rows_short_get_session[of st rc now tok]
  by (auto simp: get_conversation_history_def Let_def split: prod.splits option.splits)

lemma rows_short_add_conversation_message:
  assumes "rows_short st"
  shows "rows_short (add_conversation_message rc now tok rl ct md st)"
proof (cases "get_session rc now tok st")
  case (Pair found st1)
  have db1: "db st1 = db st" using get_session_db[of rc now tok st] Pair by simp
  show ?thesis
  proof (cases found)
    case None
    then show ?thesis using assms Pair db1
      by (simp add: add_conversation_message_def rows_short_def)
  next
    case (Some s)
    let ?m = "new_message now rl ct md"
    let ?appended = "conversation_history s @ [?m]"
    let ?trimmed = "most_recent 100 ?appended"
    let ?held = "s\<lparr>conversation_history := (if conversation_history s = [] then conversation_history s else ?appended)\<rparr>"
    let ?s' = "s\<lparr>conversation_history := ?trimmed, last_activity := Some now\<rparr>"
    have len: "attached s \<Longrightarrow> length (conversation_history s) \<le> 1"
      using get_session_source[of rc now tok st s st1] Pair Some assms
      by (auto simp: rows_short_def)
    have "attached ?s' \<Longrightarrow> conversation_history ?s' = conversation_history ?held \<or>
                           length (conversation_history ?s') \<le> 1"
      using len by (auto simp: most_recent_def)
    from db_commit_rows_short[OF _ this, of "db st" now] assms
    have "\<forall>t r. db_commit (db st) now ?held ?s' t = Some r \<longrightarrow> length (conversation_history r) \<le> 1"
      by (simp add: rows_short_def)
    then show ?thesis
      using Pair Some db1
      unfolding add_conversation_message_def new_message_def[symmetric]
      by (simp add: Let_def trim_most_recent rows_short_def)
  qed
qed

lemma rows_short_update_learning_progress:
  assumes "rows_short st"
  shows "rows_short (update_learning_progress rc now tok p st)"
proof (cases "get_session rc now tok st")
  case (Pair found st1)
  have db1: "db st1 = db st" using get_session_db[of rc now tok st] Pair by simp
  show ?thesis
  proof (cases found)
    case None
    then show ?thesis using assms Pair db1
      by (simp add: update_learning_progress_def rows_short_def)
  next
    case (Some s)
    show ?thesis
      unfolding rows_short_def
    proof (intro allI impI)
      fix t r
      assume "db (update_learning_progress rc now tok p st) t = Some r"
      then obtain held where
        "db_commit (db st) now (s\<lparr>learning_progress := held\<rparr>)
           (s\<lparr>learning_progress := learning_progress s ++ p, last_activity := Some now\<rparr>) t = Some r"
        using Pair Some db1
        by (auto simp: update_learning_progress_def Let_def split: if_splits)
      from db_commit_history_kept[OF this] obtain r0 where
        "db st t = Some r0" "conversation_history r = conversation_history r0" by auto
      then show "length (conversation_history r) \<le> 1"
        using assms by (auto simp: rows_short_def)
    qed
  qed
qed

lemma rows_short_update_story_context:
  assumes "rows_short st"
  shows "rows_short (update_story_context rc now tok c st)"
proof (cases "get_session rc now tok st")
  case (Pair found st1)
  have db1: "db st1 = db st" using get_session_db[of rc now tok st] Pair by simp
  show ?thesis
  proof (cases found)
    case None
    then show ?thesis using assms Pair db1
      by (simp add: update_story_context_def rows_short_def)
  next
    case (Some s)
    show ?thesis
      unfolding rows_short_def
    proof (intro allI impI)
      fix t r
      assume "db (update_story_context rc now tok c st) t = Some r"
      then have
        "db_commit (db st) now s
           (s\<lparr>current_story_context := c, last_activity := Some now\<rparr>) t = Some r"
        using Pair Some db1
        by (auto simp: update_story_context_def Let_def split: if_splits)
      from db_commit_history_kept[OF this] obtain r0 where
        "db st t = Some r0" "conversation_history r = conversation_history r0" by auto
      then show "length (conversation_history r) \<le> 1"
        using assms by (auto simp: rows_short_def)
    qed
  qed
qed

lemma analyze_personality_adaptations_db:
  assumes "get_session rc now tok st = (Some s, st1)"
  shows "db (snd (analyze_personality_adaptations rc now tok st)) = db st \<or>
         (\<exists>held a. db (snd (analyze_personality_adaptations rc now tok st)) =
            db_commit (db st) now (s\<lparr>personality_adaptations := held\<rparr>)
              (s\<lparr>personality_adaptations := a\<rparr>))"
proof -
  have db1: "db st1 = db st" using get_session_db[of rc now tok st] assms by simp
  show ?thesis
    using assms db1
    by (auto simp: analyze_personality_adaptations_def Let_def split: sum.splits)
qed

lemma rows_short_analyze_personality_adaptations:
  assumes "rows_short st"
  shows "rows_short (snd (analyze_personality_adaptations rc now tok st))"
proof (cases "get_session rc now tok st")
  case (Pair found st1)
  have db1: "db st1 = db st" using get_session_db[of rc now tok st] Pair by simp
  show ?thesis
  proof (cases found)
    case None
    then show ?thesis using assms Pair db1
      by (simp add: analyze_personality_adaptations_def rows_short_def)
  next
    case (Some s)
    show ?thesis
      unfolding rows_short_def
    proof (intro allI impI)
      fix t r
      assume r: "db (snd (analyze_personality_adaptations rc now tok st)) t = Some r"
      have "\<exists>r0. db st t = Some r0 \<and> conversation_history r = conversation_history r0"
      proof -
        from analyze_personality_adaptations_db[of rc now tok st s st1] Pair Some
        consider (same) "db (snd (analyze_personality_adaptations rc now tok st)) = db st"
          | (commit) held a where
              "db (snd (analyze_personality_adaptations rc now tok st)) =
                 db_commit (db st) now (s\<lparr>personality_adaptations := held\<rparr>)
                   (s\<lparr>personality_adaptations := a\<rparr>)"
          by blast
        then show ?thesis
        proof cases
          case same
          then show ?thesis using r by simp
        next
          case commit
          then have "db_commit (db st) now (s\<lparr>personality_adaptations := held\<rparr>)
                       (s\<lparr>personality_adaptations := a\<rparr>) t = Some r"
            using r by simp
          from db_commit_history_kept[OF this] show ?thesis by simp
        qed
      qed
      then show "length (conversation_history r) \<le> 1"
        using assms by (auto simp: rows_short_def)
    qed
  qed
qed

lemma rows_short_evict:
  "rows_short st \<Longrightarrow> rows_short (st\<lparr>redis := (redis st)(tok := None)\<rparr>)"
  by (simp add: rows_short_def)

lemma reachable_rows_short: "reachable st \<Longrightarrow> rows_short st"
proof (induction rule: reachable.induct)
  case start
  show ?case by (rule rows_short_empty_store)
qed (simp_all add: rows_short_evict rows_short_create_session rows_short_get_session
      rows_short_add_conversation_message rows_short_get_conversation_history
      rows_short_update_learning_progress rows_short_update_story_context
      rows_short_analyze_personality_adaptations)

lemma reachable_append_calls:
  "reachable st \<Longrightarrow> reachable (append_calls rc tok calls st)"
proof (induction calls arbitrary: st)
  case Nil
  then show ?case by (simp add: append_calls_def)
next
  case (Cons c calls)
  obtain now rl ct md where c: "c = (now, rl, ct, md)" by (cases c)
  have "reachable (add_conversation_message rc now tok rl ct md st)"
    using Cons.prems by (rule reachable.append)
  from Cons.IH[OF this] show ?case by (simp add: c append_calls_def)
qed

section \<open>The history stays within the bound\<close>

lemma connected_history_bounded:
  assumes "cached_with st tok ex h" "now < ex" "ex \<le> now + cache_ttl" "t2 < ex"
  shows "length (fst (get_conversation_history (Connected b) t2 tok None
           (add_conversation_message (Connected b) now tok rl ct md st))) \<le> 100"
  using history_of_cached[OF add_message_connected_step[OF assms(1-3)] assms(4)]
  by (simp add: length_most_recent)

section \<open>The mutating operations that set the last activity\<close>

text \<open>
  \<^verbatim>\<open>add_conversation_message\<close>, \<^verbatim>\<open>update_learning_progress\<close> and \<^verbatim>\<open>update_story_context\<close>
  assign \<open>last_activity\<close>: the session read back afterwards carries the instant of the
  call, whether it is served from the cache or from the row, and its user, token and
  expiry are the ones it had.
\<close>

lemma db_commit_row:
  assumes "attached s'" "session_token s' = tok" "tbl tok = Some r"
    and "last_activity s' = Some now" "last_activity held = last_activity r"
    and "current_story_context held = current_story_context r"
  shows "\<exists>r'. db_commit tbl now held s' tok = Some r' \<and> last_activity r' = Some now \<and>
              user_id r' = user_id r \<and> session_token r' = session_token r \<and>
              expires_at r' = expires_at r \<and> created_at r' = created_at r \<and>
              current_story_context r' = current_story_context s'"
  using assms by (auto simp: db_commit_def unchanged_def)

lemma read_after_write_back:
  assumes g: "get_session rc t1 tok st = (Some s, st1)"
    and f: "session_token s' = session_token s" "expires_at s' = expires_at s"
           "user_id s' = user_id s" "attached s' = attached s" "last_activity s' = Some t1"
    and h: "last_activity held = last_activity s"
           "current_story_context held = current_story_context s"
    and t: "t2 < expires_at s" "t2 < t1 + cache_ttl"
  shows "\<exists>s2 st2. get_session rc t2 tok (write_back rc t1 tok held s' st1) = (Some s2, st2) \<and>
           last_activity s2 = Some t1 \<and> user_id s2 = user_id s \<and>
           session_token s2 = session_token s \<and> expires_at s2 = expires_at s \<and>
           current_story_context s2 = current_story_context s'"
proof -
  have tok: "session_token s = tok" using g by (rule get_session_token)
  have db1: "db st1 = db st" using get_session_db[of rc t1 tok st] g by simp
  show ?thesis
  proof (cases "attached s")
    case True
    then obtain r where r: "db st tok = Some r" "s = r\<lparr>attached := True\<rparr>"
      using get_session_source[OF g] by blast
    have "\<exists>r'. db_commit (db st1) t1 held s' tok = Some r' \<and> last_activity r' = Some t1 \<and>
              user_id r' = user_id r \<and> session_token r' = session_token r \<and>
              expires_at r' = expires_at r \<and> created_at r' = created_at r \<and>
              current_story_context r' = current_story_context s'"
      using True f h tok r db1 by (intro db_commit_row) simp_all
    then obtain r' where r': "db_commit (db st1) t1 held s' tok = Some r'"
      "last_activity r' = Some t1" "user_id r' = user_id r" "session_token r' = session_token r"
      "expires_at r' = expires_at r" "current_story_context r' = current_story_context s'"
      by blast
    have ids: "session_token r = tok" "expires_at r = expires_at s" "user_id r = user_id s"
      using r(2) tok by simp_all
    show ?thesis
    proof (cases rc)
      case NoClient
      then show ?thesis
        using r' ids t tok
        by (simp add: write_back_def Let_def get_session_def db_query_def)
    next
      case Unreachable
      then show ?thesis
        using r' ids t tok
        by (simp add: write_back_def Let_def get_session_def get_cached_session_def
            cache_session_def db_query_def)
    next
      case (Connected b)
      then show ?thesis
        using r' ids t tok True f
        by (simp add: write_back_def Let_def get_session_def get_cached_session_def
            cache_session_def after_commit_def hgetall_def live_def no_fields_def)
    qed
  next
    case False
    then have "\<not> cache_down rc" using g get_session_attached by blast
    then obtain b where rc: "rc = Connected b"
      by (cases rc) (auto simp: cache_down_def)
    show ?thesis
      using False f t tok unfolding rc
      by (simp add: write_back_def Let_def get_session_def get_cached_session_def
          cache_session_def after_commit_def db_commit_def hgetall_def live_def no_fields_def)
  qed
qed

lemma update_learning_progress_found:
  "get_session rc now tok st = (Some s, st1) \<Longrightarrow>
   update_learning_progress rc now tok p st =
     write_back rc now tok
       (s\<lparr>learning_progress :=
            (if learning_progress s = Map.empty then learning_progress s
             else learning_progress s ++ p)\<rparr>)
       (s\<lparr>learning_progress := learning_progress s ++ p, last_activity := Some now\<rparr>) st1"
  by (simp add: update_learning_progress_def write_back_def Let_def)

lemma update_story_context_found:
  "get_session rc now tok st = (Some s, st1) \<Longrightarrow>
   update_story_context rc now tok c st =
     write_back rc now tok s (s\<lparr>current_story_context := c, last_activity := Some now\<rparr>) st1"
  by (simp add: update_story_context_def write_back_def Let_def)

lemma update_learning_progress_last_activity:
  assumes "get_session rc t1 tok st = (Some s, st1)" "t2 < expires_at s" "t2 < t1 + cache_ttl"
  shows "\<exists>s2. fst (get_session rc t2 tok (update_learning_progress rc t1 tok p st)) = Some s2 \<and>
              last_activity s2 = Some t1 \<and> user_id s2 = user_id s \<and>
              session_token s2 = session_token s \<and> expires_at s2 = expires_at s"
proof -
  let ?held = "s\<lparr>learning_progress :=
            (if learning_progress s = Map.empty then learning_progress s
             else learning_progress s ++ p)\<rparr>"
  let ?a = "s\<lparr>learning_progress := learning_progress s ++ p, last_activity := Some t1\<rparr>"
  obtain s2 st2 where "get_session rc t2 tok (write_back rc t1 tok ?held ?a st1) = (Some s2, st2)"
    "last_activity s2 = Some t1" "user_id s2 = user_id s"
    "session_token s2 = session_token s" "expires_at s2 = expires_at s"
    using read_after_write_back[OF assms(1), of ?a ?held t2] assms(2,3) by auto
  then show ?thesis
    by (simp add: update_learning_progress_found[OF assms(1)])
qed

text \<open>
  \<^verbatim>\<open>update_story_context\<close> replaces the story context, with or without a cache: the dict
  assigned is the caller's, a new object for the ORM.
\<close>

lemma update_story_context_last_activity:
  assumes "get_session rc t1 tok st = (Some s, st1)" "t2 < expires_at s" "t2 < t1 + cache_ttl"
  shows "\<exists>s2. fst (get_session rc t2 tok (update_story_context rc t1 tok c st)) = Some s2 \<and>
              current_story_context s2 = c \<and>
              last_activity s2 = Some t1 \<and> user_id s2 = user_id s \<and>
              session_token s2 = session_token s \<and> expires_at s2 = expires_at s"
proof -
  let ?a = "s\<lparr>current_story_context := c, last_activity := Some t1\<rparr>"
  obtain s2 st2 where "get_session rc t2 tok (write_back rc t1 tok s ?a st1) = (Some s2, st2)"
    "last_activity s2 = Some t1" "user_id s2 = user_id s"
    "session_token s2 = session_token s" "expires_at s2 = expires_at s"
    "current_story_context s2 = current_story_context ?a"
    using read_after_write_back[OF assms(1), of ?a s t2] assms(2,3) by auto
  then show ?thesis
    by (simp add: update_story_context_found[OF assms(1)])
qed

lemma story_context_is_replaced:
  assumes found: "fst (get_session rc t1 tok st) = Some s"
    and order: "t1 \<le> t2" "t2 \<le> t3" "t3 < expires_at s"
    and life: "expires_at s \<le> t1 + session_lifetime"
  shows "\<exists>s'. fst (get_session rc t3 tok
                  (update_story_context rc t2 tok c2
                     (update_story_context rc t1 tok c1 st))) = Some s' \<and>
              current_story_context s' = c2"
proof -
  obtain st1 where g1: "get_session rc t1 tok st = (Some s, st1)"
    using found by (cases "get_session rc t1 tok st") auto
  have w: "t2 < expires_at s" "t2 < t1 + cache_ttl" "t3 < expires_at s" "t3 < t2 + cache_ttl"
    using order life by (simp_all add: cache_ttl_def session_lifetime_def)
  obtain s2 where s2: "fst (get_session rc t2 tok (update_story_context rc t1 tok c1 st)) = Some s2"
    "expires_at s2 = expires_at s"
    using update_story_context_last_activity[OF g1 w(1,2), of c1] by auto
  then obtain st2 where g2: "get_session rc t2 tok (update_story_context rc t1 tok c1 st) = (Some s2, st2)"
    by (cases "get_session rc t2 tok (update_story_context rc t1 tok c1 st)") auto
  show ?thesis
    using update_story_context_last_activity[OF g2, of t3 c2] w s2(2) by auto
qed

lemma add_conversation_message_found:
  "get_session rc now tok st = (Some s, st1) \<Longrightarrow>
   add_conversation_message rc now tok rl ct md st =
     (let st2 = write_back rc now tok
                  (s\<lparr>conversation_history :=
                       (if conversation_history s = [] then conversation_history s
                        else conversation_history s @ [new_message now rl ct md])\<rparr>)
                  (s\<lparr>conversation_history :=
                       most_recent 100 (conversation_history s @ [new_message now rl ct md]),
                     last_activity := Some now\<rparr>) st1
      in if rc \<noteq> NoClient
         then st2\<lparr>redis := add_message_to_cache rc now tok (new_message now rl ct md) (redis st2)\<rparr>
         else st2)"
  by (simp add: add_conversation_message_def write_back_def Let_def trim_most_recent
      new_message_def)

lemma write_back_cached:
  assumes g: "get_session (Connected b) t1 tok st = (Some s, st1)"
    and f: "session_token s' = session_token s" "expires_at s' = expires_at s"
           "user_id s' = user_id s" "attached s' = attached s" "last_activity s' = Some t1"
    and h: "last_activity held = last_activity s"
           "current_story_context held = current_story_context s"
  shows "\<exists>e. redis (write_back (Connected b) t1 tok held s' st1) tok = Some e \<and>
             ce_user_id e = Some (user_id s) \<and> ce_expires_at e = Some (expires_at s) \<and>
             ce_last_activity e = Some (Iso t1) \<and> ce_deadline e = Some (t1 + cache_ttl)"
proof -
  have tok: "session_token s = tok" using g by (rule get_session_token)
  have db1: "db st1 = db st" using get_session_db[of "Connected b" t1 tok st] g by simp
  show ?thesis
  proof (cases "attached s")
    case True
    then obtain r where r: "db st tok = Some r" "s = r\<lparr>attached := True\<rparr>"
      using get_session_source[OF g] by blast
    have "\<exists>r'. db_commit (db st1) t1 held s' tok = Some r' \<and> last_activity r' = Some t1 \<and>
              user_id r' = user_id r \<and> session_token r' = session_token r \<and>
              expires_at r' = expires_at r \<and> created_at r' = created_at r \<and>
              current_story_context r' = current_story_context s'"
      using True f h tok r db1 by (intro db_commit_row) simp_all
    then obtain r' where r': "db_commit (db st1) t1 held s' tok = Some r'"
      "last_activity r' = Some t1" "user_id r' = user_id r" "expires_at r' = expires_at r"
      by blast
    show ?thesis
      using r' r(2) tok True f
      by (simp add: write_back_def Let_def cache_session_def after_commit_def)
  next
    case False
    then show ?thesis
      using f tok
      by (simp add: write_back_def Let_def cache_session_def after_commit_def db_commit_def)
  qed
qed

lemma get_session_cached:
  assumes "redis st tok = Some e" "ce_user_id e = Some u" "ce_expires_at e = Some ex"
    and "ce_last_activity e = Some (Iso la)" "ce_deadline e = Some d" "t2 < d" "t2 < ex"
  shows "\<exists>s2. fst (get_session (Connected b) t2 tok st) = Some s2 \<and>
              last_activity s2 = Some la \<and> user_id s2 = u \<and>
              session_token s2 = tok \<and> expires_at s2 = ex"
  using assms
  by (simp add: get_session_def get_cached_session_def hgetall_def live_def no_fields_def)

lemma add_conversation_message_last_activity:
  assumes g: "get_session rc t1 tok st = (Some s, st1)" and t: "t2 < expires_at s" "t2 < t1 + cache_ttl"
  shows "\<exists>s2. fst (get_session rc t2 tok (add_conversation_message rc t1 tok rl ct md st)) = Some s2 \<and>
              last_activity s2 = Some t1 \<and> user_id s2 = user_id s \<and>
              session_token s2 = session_token s \<and> expires_at s2 = expires_at s"
proof -
  let ?m = "new_message t1 rl ct md"
  let ?held = "s\<lparr>conversation_history :=
                 (if conversation_history s = [] then conversation_history s
                  else conversation_history s @ [?m])\<rparr>"
  let ?a = "s\<lparr>conversation_history := most_recent 100 (conversation_history s @ [?m]),
              last_activity := Some t1\<rparr>"
  have tok: "session_token s = tok" using g by (rule get_session_token)
  show ?thesis
  proof (cases "cache_down rc")
    case True
    then have same: "add_conversation_message rc t1 tok rl ct md st = write_back rc t1 tok ?held ?a st1"
      unfolding add_conversation_message_found[OF g]
      by (cases rc) (simp_all add: Let_def cache_down_def add_message_to_cache_def)
    obtain s2 st2 where "get_session rc t2 tok (write_back rc t1 tok ?held ?a st1) = (Some s2, st2)"
      "last_activity s2 = Some t1" "user_id s2 = user_id s"
      "session_token s2 = session_token s" "expires_at s2 = expires_at s"
      using read_after_write_back[OF g, of ?a ?held t2] t by auto
    then show ?thesis by (simp add: same)
  next
    case False
    then obtain b where rc: "rc = Connected b"
      by (cases rc) (auto simp: cache_down_def)
    obtain e where e: "redis (write_back (Connected b) t1 tok ?held ?a st1) tok = Some e"
      "ce_user_id e = Some (user_id s)" "ce_expires_at e = Some (expires_at s)"
      "ce_last_activity e = Some (Iso t1)" "ce_deadline e = Some (t1 + cache_ttl)"
      using write_back_cached[OF g[unfolded rc], of ?a ?held] by auto
    obtain h where after: "redis (add_conversation_message rc t1 tok rl ct md st) tok =
        Some (e\<lparr>ce_conversation_history := Some h\<rparr>)"
      using e(1,5) unfolding rc
      by (simp add: add_conversation_message_found[OF g[unfolded rc]] Let_def
          add_message_to_cache_def live_def cache_ttl_def)
    show ?thesis
      using get_session_cached[OF after, of "user_id s" "expires_at s" t1 "t1 + cache_ttl" t2 b]
        e t tok unfolding rc by simp
  qed
qed

section \<open>Two consequences of how sessions served from the cache are written\<close>

text \<open>
  With a connected cache five appended messages are stored as ten entries, so the analysis
  already runs; without a cache the row keeps one entry and the analysis is skipped.
\<close>

lemma five_appends_reach_the_threshold:
  "projr (fst (analyze_personality_adaptations (Connected b) 20 ''t''
        (append_calls (Connected b) ''t'' five_user_calls
           (snd (create_session (Connected b) 0 ''t'' 1 empty_store))))) ''message_count_analyzed'' =
     Some (JNum 10) \<and>
   fst (analyze_personality_adaptations NoClient 20 ''t''
        (append_calls NoClient ''t'' five_user_calls
           (snd (create_session NoClient 0 ''t'' 1 empty_store)))) = Inr Map.empty"
  by (cases b) (simp_all add: five_user_calls_def store_defs analysis_defs Let_def)

text \<open>
  A session served from the cache is an object of its own, not attached to \<^verbatim>\<open>db\<close>: the
  second update below is visible through the store and absent from the table.
\<close>

lemma cached_update_does_not_reach_the_table:
  "map_option (\<lambda>s. (learning_progress s ''a'', learning_progress s ''b''))
     (fst (get_session (Connected b) 3 ''t'' (twice_updated_store (Connected b)))) =
     Some (Some (JNum 1), Some (JNum 2)) \<and>
   map_option (\<lambda>r. (learning_progress r ''a'', learning_progress r ''b''))
     (db (twice_updated_store (Connected b)) ''t'') = Some (Some (JNum 1), None)"
  by (cases b) (simp_all add: twice_updated_store_def store_defs Let_def)

section \<open>Claims\<close>

subsection \<open>C1\<close>

text \<open>
  C1 (read-your-writes: a read through the store right after a mutation shows exactly the
  state the mutation produced; after one appended message the history shows it once).
  With a connected cache, of either kind, the code stores the appended message twice:
  \<^verbatim>\<open>add_conversation_message\<close> writes the session, new message included, with
  \<^verbatim>\<open>_cache_session\<close> and then appends the same message to the cached history again with
  \<^verbatim>\<open>_add_message_to_cache\<close>. The read that follows is served from the cache and returns
  the message two times.
\<close>

theorem C1_append_is_read_back_twice:
  "fst (get_conversation_history (Connected b) 20 ''t'' None
          (add_conversation_message (Connected b) 10 ''t'' ''user'' ''hi'' None
             (snd (create_session (Connected b) 0 ''t'' 1 empty_store))))
   = [\<lparr>role = ''user'', content = ''hi'', timestamp = 10, metadata = Map.empty\<rparr>,
      \<lparr>role = ''user'', content = ''hi'', timestamp = 10, metadata = Map.empty\<rparr>]"
  by (cases b) (simp_all add: store_defs Let_def)

subsection \<open>C2\<close>

text \<open>
  C2 (history bound: after more than 100 appended messages the history is exactly the most
  recent 100 of them, in order). With a connected cache, of either kind, 101 messages
  appended to a new session are read back as the 50 most recent messages, each of them
  twice: every append stores its message two times in the cached history (see C1), and the
  trim to 100 entries then drops messages 2 to 51, which the claim keeps. The length stays
  at 100.
\<close>

theorem C2_connected_history:
  "fst (get_conversation_history (Connected b) 102 ''t'' None
          (append_calls (Connected b) ''t'' (numbered_calls 101)
             (snd (create_session (Connected b) 0 ''t'' 1 empty_store)))) =
     concat (map (\<lambda>i. [numbered_message i, numbered_message i]) [52..<102]) \<and>
   fst (get_conversation_history (Connected b) 102 ''t'' None
          (append_calls (Connected b) ''t'' (numbered_calls 101)
             (snd (create_session (Connected b) 0 ''t'' 1 empty_store)))) \<noteq>
     map numbered_message [2..<102]"
proof -
  let ?r = "fst (get_conversation_history (Connected b) 102 ''t'' None
          (append_calls (Connected b) ''t'' (numbered_calls 101)
             (snd (create_session (Connected b) 0 ''t'' 1 empty_store))))"
  have "?r = most_recent 100 (concat (map (\<lambda>i. [numbered_message i, numbered_message i]) [1..<Suc 101]))"
    using connected_history_after_appends[of 101 b] by (simp del: upt_rec_numeral)
  also have "\<dots> = drop (2 * 51) (concat (map (\<lambda>i. [numbered_message i, numbered_message i]) [1..<102]))"
    by (simp add: most_recent_def length_concat_pairs del: upt_rec_numeral)
  also have "\<dots> = concat (map (\<lambda>i. [numbered_message i, numbered_message i]) (drop 51 [1..<102]))"
    by (rule drop_concat_pairs)
  also have "drop 51 [1..<102] = [52..<102]"
    by (simp del: upt_rec_numeral)
  finally have r: "?r = concat (map (\<lambda>i. [numbered_message i, numbered_message i]) [52..<102])" .
  have "hd (concat (map (\<lambda>i. [numbered_message i, numbered_message i]) [52..<102])) = numbered_message 52"
    by (simp add: upt_conv_Cons del: upt_rec_numeral)
  moreover have "hd (map numbered_message [2..<102]) = numbered_message 2"
    by (simp add: upt_conv_Cons del: upt_rec_numeral)
  moreover have "numbered_message 52 \<noteq> numbered_message 2"
    by (simp add: numbered_message_def)
  ultimately have ne: "concat (map (\<lambda>i. [numbered_message i, numbered_message i]) [52..<102]) \<noteq>
     map numbered_message [2..<102]" by metis
  show ?thesis unfolding r by (rule conjI[OF refl ne])
qed

subsection \<open>C3\<close>

text \<open>
  C3 (expiry with purge). When every stored copy of the session of \<open>tok\<close>, the row and the
  cached hash, has an \<open>expires_at\<close> that is not after \<open>now\<close>, \<^verbatim>\<open>get_session\<close> returns
  nothing although the copies are present, the table is left as it is, and a hash that the
  read found in the cache is deleted from it.
\<close>

theorem C3_expired_session_is_not_found:
  assumes "\<forall>r. db st tok = Some r \<longrightarrow> expires_at r \<le> now"
    and "\<forall>e ex. redis st tok = Some e \<longrightarrow> ce_expires_at e = Some ex \<longrightarrow> ex \<le> now"
  shows "fst (get_session rc now tok st) = None \<and>
         db (snd (get_session rc now tok st)) = db st \<and>
         (\<not> cache_down rc \<longrightarrow>
            (\<forall>e ex. hgetall now (redis st) tok = Some e \<longrightarrow> ce_expires_at e = Some ex \<longrightarrow>
               redis (snd (get_session rc now tok st)) tok = None))"
proof -
  have q: "db_query (db st) tok now = None"
    using assms(1) by (auto simp: db_query_def split: option.splits)
  have live: "\<And>e. hgetall now (redis st) tok = Some e \<Longrightarrow> redis st tok = Some e"
    by (auto simp: hgetall_def live_def split: option.splits if_splits)
  show ?thesis
  proof (cases rc)
    case NoClient
    then show ?thesis using q by (simp add: get_session_def cache_down_def)
  next
    case Unreachable
    then show ?thesis using q by (simp add: get_session_def get_cached_session_def cache_down_def)
  next
    case (Connected b)
    show ?thesis
    proof (cases "hgetall now (redis st) tok")
      case None
      then show ?thesis using q Connected by (simp add: get_session_def get_cached_session_def)
    next
      case (Some e)
      note e = live[OF Some]
      show ?thesis
      proof (cases "ce_expires_at e")
        case None
        then show ?thesis using q Connected Some
          by (simp add: get_session_def get_cached_session_def)
      next
        case (Some ex)
        then have "ex \<le> now" using assms(2) e by blast
        then show ?thesis using q Connected Some \<open>hgetall now (redis st) tok = Some e\<close>
          by (simp add: get_session_def get_cached_session_def)
      qed
    qed
  qed
qed

theorem C3_witness:
  "db aged_store ''t'' \<noteq> None \<and>
   hgetall 86400 (redis aged_store) ''t'' \<noteq> None \<and>
   fst (get_session (Connected True) 86400 ''t'' aged_store) = None \<and>
   redis (snd (get_session (Connected True) 86400 ''t'' aged_store)) ''t'' = None"
proof -
  have h1: "\<forall>r. db aged_store ''t'' = Some r \<longrightarrow> expires_at r \<le> 86400"
    by (simp add: aged_store_def store_defs Let_def)
  have h2: "\<forall>e ex. redis aged_store ''t'' = Some e \<longrightarrow> ce_expires_at e = Some ex \<longrightarrow> ex \<le> 86400"
    by (simp add: aged_store_def store_defs Let_def)
  have present: "db aged_store ''t'' \<noteq> None" "hgetall 86400 (redis aged_store) ''t'' \<noteq> None"
    "\<exists>e ex. hgetall 86400 (redis aged_store) ''t'' = Some e \<and> ce_expires_at e = Some ex"
    by (simp_all add: aged_store_def store_defs Let_def)
  from C3_expired_session_is_not_found[OF h1 h2, of "Connected True"] present
  show ?thesis by (auto simp: cache_down_def)
qed

subsection \<open>C4\<close>

text \<open>
  C4 (cache-down equivalence: without a usable cache every operation answers as the run with
  the cache does). The same two calls followed by the same read return one message when
  there is no client or the client cannot reach Redis, and two when the cache is connected
  (the double write of C1).
\<close>

theorem C4_cache_down_run_differs:
  "fst (get_conversation_history NoClient 20 ''t'' None (one_message_store NoClient)) =
     [\<lparr>role = ''user'', content = ''hi'', timestamp = 10, metadata = Map.empty\<rparr>] \<and>
   fst (get_conversation_history Unreachable 20 ''t'' None (one_message_store Unreachable)) =
     [\<lparr>role = ''user'', content = ''hi'', timestamp = 10, metadata = Map.empty\<rparr>] \<and>
   fst (get_conversation_history (Connected b) 20 ''t'' None (one_message_store (Connected b))) =
     [\<lparr>role = ''user'', content = ''hi'', timestamp = 10, metadata = Map.empty\<rparr>,
      \<lparr>role = ''user'', content = ''hi'', timestamp = 10, metadata = Map.empty\<rparr>]"
  by (cases b) (simp_all add: one_message_store_def store_defs Let_def)

subsection \<open>C5\<close>

text \<open>
  C5 (merge versus replace: two consecutive \<^verbatim>\<open>update_learning_progress\<close> calls with disjoint
  keys leave both key sets present). Without a usable cache the second merge is lost. A new
  session is updated with the key \<^verbatim>\<open>a\<close> and then with the key \<^verbatim>\<open>b\<close>; the session read
  back has \<^verbatim>\<open>a\<close> and has no \<^verbatim>\<open>b\<close>. The first call merges into a new dict, which is
  written; the second call loads the dict of the row, updates it in place and assigns the
  same object back, which \<^verbatim>\<open>db.commit()\<close> does not write for a plain JSON column. With a
  connected cache both keys are read back, from the hash, and the row still lacks the
  second (lemma \<open>cached_update_does_not_reach_the_table\<close>). The other half of the claim
  holds: two \<^verbatim>\<open>update_story_context\<close> calls leave exactly the second payload, with or
  without a cache (lemma \<open>story_context_is_replaced\<close>).
\<close>

theorem C5_second_merge_is_lost:
  "map_option (\<lambda>s. (learning_progress s ''a'', learning_progress s ''b''))
     (fst (get_session NoClient 3 ''t'' (twice_updated_store NoClient))) =
     Some (Some (JNum 1), None) \<and>
   map_option (\<lambda>s. (learning_progress s ''a'', learning_progress s ''b''))
     (fst (get_session Unreachable 3 ''t'' (twice_updated_store Unreachable))) =
     Some (Some (JNum 1), None)"
  by (simp add: twice_updated_store_def store_defs Let_def)

subsection \<open>C6\<close>

text \<open>
  C6 (analyzer threshold). For a session that \<^verbatim>\<open>get_session\<close> finds with fewer than 10
  history messages of any role, \<^verbatim>\<open>analyze_personality_adaptations\<close> returns the
  session's adaptations as they are and leaves the store as the load of the session left
  it: the table is unchanged, and the hash of the session is either untouched or the copy
  the load made, which carries the same adaptations.
\<close>

theorem C6_threshold_skip:
  assumes "get_session rc now tok st = (Some s, st1)"
    and "length (conversation_history s) < 10"
  shows "analyze_personality_adaptations rc now tok st = (Inr (personality_adaptations s), st1) \<and>
         db st1 = db st \<and>
         (\<forall>t. t \<noteq> tok \<longrightarrow> redis st1 t = redis st t) \<and>
         (\<forall>e. redis st1 tok = Some e \<longrightarrow>
            redis st tok = Some e \<or> ce_personality_adaptations e = Some (personality_adaptations s))"
proof -
  have "analyze_personality_adaptations rc now tok st = (Inr (personality_adaptations s), st1)"
    using assms by (simp add: analyze_personality_adaptations_def personality_analysis_threshold_def)
  moreover have "db st1 = db st"
    using get_session_db[of rc now tok st] assms(1) by simp
  moreover have "\<forall>t. t \<noteq> tok \<longrightarrow> redis st1 t = redis st t"
    using get_session_other_keys[of _ tok rc now st] assms(1) by simp
  moreover have "\<forall>e. redis st1 tok = Some e \<longrightarrow>
            redis st tok = Some e \<or> ce_personality_adaptations e = Some (personality_adaptations s)"
    using get_session_cache_entry[OF assms(1)] by blast
  ultimately show ?thesis by blast
qed

theorem C6_witness:
  "length (conversation_history
      (the (fst (get_session (Connected True) 20 ''t'' (short_store (Connected True)))))) < 10 \<and>
   fst (analyze_personality_adaptations (Connected True) 20 ''t'' (short_store (Connected True))) =
     Inr Map.empty \<and>
   db (snd (analyze_personality_adaptations (Connected True) 20 ''t'' (short_store (Connected True)))) =
     db (short_store (Connected True))"
proof -
  let ?g = "get_session (Connected True) 20 ''t'' (short_store (Connected True))"
  have f: "fst ?g = Some (the (fst ?g))"
    by (simp add: short_store_def three_user_calls_def store_defs Let_def)
  then have g: "?g = (Some (the (fst ?g)), snd ?g)"
    by (metis prod.collapse)
  have l: "length (conversation_history (the (fst ?g))) < 10"
    by (simp add: short_store_def three_user_calls_def store_defs Let_def)
  have a: "personality_adaptations (the (fst ?g)) = Map.empty"
    by (simp add: short_store_def three_user_calls_def store_defs Let_def)
  from C6_threshold_skip[OF g l] l a show ?thesis by simp
qed

subsection \<open>C7\<close>

text \<open>
  C7 as stated (P and N are the numbers of occurrences of the positive and negative words in
  the analyzed messages) fails on a message that repeats a word:
  \<^verbatim>\<open>great great great hard\<close> has three occurrences of a positive word and one of a negative word, hence optimistic by
  the rule of the claim, and the code answers neutral.
\<close>

theorem C7_counterexample:
  "spec_emotional_tone [mixed_message] = ''optimistic'' \<and>
   analyze_interaction_patterns 0 [mixed_message] \<noteq> Inl TypeError \<and>
   projr (analyze_interaction_patterns 0 [mixed_message]) ''emotional_tone'' = Some (JStr ''neutral'')"
  by (simp add: mixed_message_def spec_emotional_tone_def spec_occurrence_count_def analysis_defs Let_def)

text \<open>
  C7 as amended. P counts, for each analyzed message, the words of the positive set that
  occur at least once in its lower-cased content (a word repeated within one message counts
  once), and N does the same with the negative set; the \<open>emotional_tone\<close> of the result is
  optimistic exactly when \<open>P > 2 * N\<close>, needs\_support exactly when \<open>N > 2 * P\<close>, and neutral
  otherwise.
\<close>

theorem C7_emotional_tone:
  assumes "analyze_interaction_patterns now msgs = Inr a" "msgs \<noteq> []"
  shows "(a ''emotional_tone'' = Some (JStr ''optimistic'') \<longleftrightarrow>
            words_found positive_words msgs > 2 * words_found negative_words msgs) \<and>
         (a ''emotional_tone'' = Some (JStr ''needs_support'') \<longleftrightarrow>
            words_found negative_words msgs > 2 * words_found positive_words msgs) \<and>
         (a ''emotional_tone'' = Some (JStr ''neutral'') \<longleftrightarrow>
            \<not> words_found positive_words msgs > 2 * words_found negative_words msgs \<and>
            \<not> words_found negative_words msgs > 2 * words_found positive_words msgs)"
proof -
  have p: "word_score positive_words msgs = words_found positive_words msgs"
    by (rule word_score_words_found) (simp add: positive_words_def)
  have n: "word_score negative_words msgs = words_found negative_words msgs"
    by (rule word_score_words_found) (simp add: negative_words_def)
  show ?thesis
    unfolding analysis_emotional_tone[OF assms] emotional_tone_def Let_def p n
    by auto
qed

theorem C7_witness:
  "projr (analyze_interaction_patterns 0 [praise_message]) ''emotional_tone'' =
     Some (JStr ''optimistic'') \<and>
   words_found positive_words [praise_message] > 2 * words_found negative_words [praise_message]"
proof -
  let ?r = "analyze_interaction_patterns 0 [praise_message]"
  have tone: "projr ?r ''emotional_tone'' = Some (JStr ''optimistic'')"
    by (simp add: praise_message_def analysis_defs Let_def)
  have "\<not> isl ?r"
    by (simp add: praise_message_def analysis_defs Let_def)
  then have r: "?r = Inr (projr ?r)"
    by (cases ?r) simp_all
  have ne: "[praise_message] \<noteq> []" by simp
  from C7_emotional_tone[OF r ne] tone show ?thesis by simp
qed

subsection \<open>C8\<close>

text \<open>
  C8 as stated (a limit of 0 yields the empty sequence) fails: \<^verbatim>\<open>if limit:\<close> treats 0 like
  a missing limit, and the whole history is returned.
\<close>

theorem C8_counterexample:
  "fst (get_conversation_history NoClient 20 ''t'' (Some 0) (one_message_store NoClient)) =
     [\<lparr>role = ''user'', content = ''hi'', timestamp = 10, metadata = Map.empty\<rparr>]"
  by (simp add: one_message_store_def store_defs Let_def)

text \<open>
  C8 as amended. For an unknown or expired token \<^verbatim>\<open>get_conversation_history\<close> returns the
  empty list. For a session that is found: without a limit, or with the limit 0, the result
  is the whole history; with a positive limit \<open>l\<close> the result is the most recent \<open>l\<close>
  entries, that is a suffix of the history of length \<open>min l (length history)\<close>, hence the
  whole history when \<open>l\<close> is not smaller than its length. No call raises.
\<close>

theorem C8_history_limit:
  "(fst (get_session rc now tok st) = None \<longrightarrow>
      fst (get_conversation_history rc now tok limit st) = []) \<and>
   (\<forall>s. fst (get_session rc now tok st) = Some s \<longrightarrow>
      (limit = None \<or> limit = Some 0 \<longrightarrow>
         fst (get_conversation_history rc now tok limit st) = conversation_history s) \<and>
      (\<forall>l. limit = Some l \<longrightarrow> 0 < l \<longrightarrow>
         (\<exists>older. conversation_history s =
                    older @ fst (get_conversation_history rc now tok limit st)) \<and>
         length (fst (get_conversation_history rc now tok limit st)) =
           min (nat l) (length (conversation_history s)) \<and>
         (length (conversation_history s) \<le> nat l \<longrightarrow>
            fst (get_conversation_history rc now tok limit st) = conversation_history s)))"
proof (cases "get_session rc now tok st")
  case (Pair found st1)
  show ?thesis
  proof (cases found)
    case None
    then show ?thesis using Pair by (simp add: get_conversation_history_def)
  next
    case (Some s)
    have pos: "\<And>l. 0 < l \<Longrightarrow>
        fst (get_conversation_history rc now tok (Some l) st) =
          drop (length (conversation_history s) - nat l) (conversation_history s)"
      using Pair Some by (simp add: get_conversation_history_def slice_from_def Let_def)
    have all: "limit = None \<or> limit = Some 0 \<Longrightarrow>
        fst (get_conversation_history rc now tok limit st) = conversation_history s"
      using Pair Some by (auto simp: get_conversation_history_def Let_def)
    show ?thesis
      using Pair Some all pos most_recent_entries[of "conversation_history s"]
      by (auto simp: min_def)
  qed
qed

theorem C8_witness:
  "fst (get_session (Connected True) 20 ''t'' three_letter_store) \<noteq> None \<and>
   map content (conversation_history
      (the (fst (get_session (Connected True) 20 ''t'' three_letter_store)))) =
     [''a'', ''a'', ''b'', ''b'', ''c'', ''c''] \<and>
   length (fst (get_conversation_history (Connected True) 20 ''t'' (Some 3) three_letter_store)) = 3 \<and>
   (\<exists>older. conversation_history
              (the (fst (get_session (Connected True) 20 ''t'' three_letter_store))) =
             older @ fst (get_conversation_history (Connected True) 20 ''t'' (Some 3) three_letter_store)) \<and>
   fst (get_conversation_history (Connected True) 20 ''t'' (Some 7) three_letter_store) =
     conversation_history (the (fst (get_session (Connected True) 20 ''t'' three_letter_store))) \<and>
   fst (get_conversation_history (Connected True) 20 ''t'' None three_letter_store) =
     conversation_history (the (fst (get_session (Connected True) 20 ''t'' three_letter_store))) \<and>
   fst (get_conversation_history (Connected True) 20 ''u'' (Some 3) three_letter_store) = []"
proof -
  let ?g = "get_session (Connected True) 20 ''t'' three_letter_store"
  have f: "fst ?g = Some (the (fst ?g))"
    by (simp add: three_letter_store_def store_defs Let_def)
  have c: "map content (conversation_history (the (fst ?g))) =
             [''a'', ''a'', ''b'', ''b'', ''c'', ''c'']"
    by (simp add: three_letter_store_def store_defs Let_def)
  have "length (map content (conversation_history (the (fst ?g)))) = 6"
    unfolding c by simp
  then have l: "length (conversation_history (the (fst ?g))) = 6"
    by simp
  have u: "fst (get_session (Connected True) 20 ''u'' three_letter_store) = None"
    by (simp add: three_letter_store_def store_defs Let_def)
  from C8_history_limit[of "Connected True" 20 "''t''" three_letter_store "Some 3"]
       C8_history_limit[of "Connected True" 20 "''t''" three_letter_store "Some 7"]
       C8_history_limit[of "Connected True" 20 "''t''" three_letter_store None]
       C8_history_limit[of "Connected True" 20 "''u''" three_letter_store "Some 3"] f c l u
  show ?thesis by (auto simp: min_def)
qed

subsection \<open>C9\<close>

text \<open>
  C9 (every mutating operation, the analysis included when it persists adaptations, sets
  \<open>last_activity\<close> to the current instant). \<^verbatim>\<open>analyze_personality_adaptations\<close> never
  assigns \<open>last_activity\<close>, unlike the three other mutating operations. A session whose last
  message was appended at instant 10 is analyzed at instant 50: the adaptations written
  back carry the analysis timestamp 50, and \<open>last_activity\<close> is still 10.
\<close>

theorem C9_analysis_keeps_last_activity:
  "map_option (\<lambda>s. (last_activity s, personality_adaptations s ''analysis_timestamp''))
     (fst (get_session (Connected b) 50 ''t''
        (snd (analyze_personality_adaptations (Connected b) 50 ''t''
           (append_calls (Connected b) ''t'' ten_user_calls
              (snd (create_session (Connected b) 0 ''t'' 1 empty_store))))))) =
   Some (Some 10, Some (JTime 50))"
  by (cases b) (simp_all add: ten_user_calls_def store_defs analysis_defs Let_def)

subsection \<open>C10\<close>

text \<open>
  C10 (a session with at least 10 history entries and no message of role \<^verbatim>\<open>user\<close> among the
  most recent 20: the analysis returns the session's adaptations unchanged and writes
  nothing to the table or the cache; only the messages of role \<^verbatim>\<open>user\<close> among the last 20
  entries contribute). In every state that the service reaches, for a session that
  \<^verbatim>\<open>get_session\<close> finds with at least 10 entries: the result is computed from the messages
  of role \<^verbatim>\<open>user\<close> among the most recent 20 entries and from nothing else, and when there
  is none the call returns the session's adaptations and leaves the whole store, table and
  cache, as it was. A session with that many entries is one served from the cache, because
  no row of a reachable state holds more than one entry (lemma \<open>reachable_rows_short\<close>),
  and a session served from the cache is loaded without a write.
\<close>

theorem C10_window_without_user_messages:
  assumes "reachable st"
    and "get_session rc now tok st = (Some s, st1)"
    and "10 \<le> length (conversation_history s)"
  shows "fst (analyze_personality_adaptations rc now tok st) =
           (if filter (\<lambda>m. role m = ''user'')
                 (drop (length (conversation_history s) - 20) (conversation_history s)) = []
            then Inr (personality_adaptations s)
            else analyze_interaction_patterns now
                   (filter (\<lambda>m. role m = ''user'')
                      (drop (length (conversation_history s) - 20) (conversation_history s)))) \<and>
         ((\<forall>m \<in> set (drop (length (conversation_history s) - 20) (conversation_history s)).
              role m \<noteq> ''user'') \<longrightarrow>
            analyze_personality_adaptations rc now tok st = (Inr (personality_adaptations s), st))"
proof -
  have rows: "rows_short st" using assms(1) by (rule reachable_rows_short)
  have "\<not> (\<exists>r. db st tok = Some r \<and> s = r\<lparr>attached := True\<rparr>)"
  proof
    assume "\<exists>r. db st tok = Some r \<and> s = r\<lparr>attached := True\<rparr>"
    then obtain r where r: "db st tok = Some r" "s = r\<lparr>attached := True\<rparr>" by blast
    have "length (conversation_history r) \<le> 1"
      using rows r(1) unfolding rows_short_def by blast
    then show False using assms(3) r(2) by simp
  qed
  then have st1: "st1 = st"
    using get_session_source[OF assms(2)] by blast
  have u: "(\<forall>m \<in> set (drop (length (conversation_history s) - 20) (conversation_history s)).
              role m \<noteq> ''user'') \<Longrightarrow>
           filter (\<lambda>m. role m = ''user'')
             (drop (length (conversation_history s) - 20) (conversation_history s)) = []"
    by (simp add: filter_empty_conv)
  have quiet: "(\<forall>m \<in> set (drop (length (conversation_history s) - 20) (conversation_history s)).
              role m \<noteq> ''user'') \<Longrightarrow>
           analyze_personality_adaptations rc now tok st = (Inr (personality_adaptations s), st)"
    using analysis_window[OF assms(2,3)] u st1 by (simp add: prod_eq_iff)
  show ?thesis
    using analysis_window(1)[OF assms(2,3)] quiet by blast
qed

theorem C10_witness:
  "length (conversation_history
           (the (fst (get_session (Connected True) 20 ''t'' quiet_store)))) = 20 \<and>
   analyze_personality_adaptations (Connected True) 20 ''t'' quiet_store =
     (Inr Map.empty, quiet_store)"
proof -
  let ?g = "get_session (Connected True) 20 ''t'' quiet_store"
  let ?h = "conversation_history (the (fst ?g))"
  have reach: "reachable quiet_store"
    unfolding quiet_store_def
    by (intro reachable_append_calls reachable.create reachable.start)
  have f: "fst ?g = Some (the (fst ?g))"
    by (simp add: quiet_store_def ten_assistant_calls_def store_defs Let_def)
  then have g: "?g = (Some (the (fst ?g)), snd ?g)"
    by (metis prod.collapse)
  have l: "length ?h = 20"
    by (simp add: quiet_store_def ten_assistant_calls_def store_defs Let_def)
  then have l10: "10 \<le> length ?h" by simp
  have r: "\<forall>m \<in> set (drop (length ?h - 20) ?h). role m \<noteq> ''user''"
    by (simp add: quiet_store_def ten_assistant_calls_def store_defs Let_def)
  have a: "personality_adaptations (the (fst ?g)) = Map.empty"
    by (simp add: quiet_store_def ten_assistant_calls_def store_defs Let_def)
  from C10_window_without_user_messages[OF reach g l10] l r a show ?thesis
    by simp
qed

end
